theory Spec2Isabelle
  imports Main
begin

section \<open>Python values, strings and exceptions\<close>

text \<open>
  A Python \<open>str\<close> is a sequence of code points and a \<open>bytes\<close> object a sequence of
  byte values; both are lists of naturals here. \<open>str_lit\<close> reads a string literal of the
  source as its code points.
\<close>

type_synonym pystr = "nat list"

type_synonym pybytes = "nat list"

definition str_lit :: "string \<Rightarrow> pystr" where
  "str_lit s = map of_char s"

text \<open>
  The exceptions the modelled code can raise. \<open>UnicodeEncodeError\<close> and
  \<open>UnicodeDecodeError\<close> are the two subclasses of Python's \<open>UnicodeError\<close> that occur;
  \<open>BinasciiError\<close> is \<open>binascii.Error\<close>.
\<close>

datatype pyexc =
    AssertionError
  | AttributeError
  | ValueError
  | UnicodeEncodeError
  | UnicodeDecodeError
  | BinasciiError

definition is_UnicodeError :: "pyexc \<Rightarrow> bool" where
  "is_UnicodeError e = (e = UnicodeEncodeError \<or> e = UnicodeDecodeError)"

definition bind_exc :: "pyexc + 'a \<Rightarrow> ('a \<Rightarrow> pyexc + 'b) \<Rightarrow> pyexc + 'b" where
  "bind_exc m f = (case m of Inl e \<Rightarrow> Inl e | Inr x \<Rightarrow> f x)"

text \<open>\<open>assert_that b k\<close> is the statement \<open>assert b\<close> followed by the rest \<open>k\<close> of the block.\<close>

definition assert_that :: "bool \<Rightarrow> pyexc + 'a \<Rightarrow> pyexc + 'a" where
  "assert_that b k = (if b then k else Inl AssertionError)"

text \<open>
  Modelled from the spec: the class \<open>kcidb.oo.Node\<close> is not among the sources. The spec
  gives a domain node an \<open>id\<close> (a string) and the projections \<open>summarize()\<close> and
  \<open>describe()\<close> (strings); the record holds the id and what the two methods return.
\<close>

record Node =
  node_id :: pystr
  summarize :: pystr
  describe :: pystr

text \<open>
  The attributes of a constructed \<open>NotificationMessage\<close> (\<open>message_id\<close> is the
  attribute \<open>id\<close>). The constructor stores its arguments only after its type checks,
  so the fields have the checked types.
\<close>

record NotificationMessage =
  recipients :: "pystr list"
  summary :: pystr
  description :: pystr
  message_id :: pystr

datatype pyval =
    VNone
  | VInt int
  | VStr pystr
  | VBytes pybytes
  | VList "pyval list"
  | VNode Node
  | VMessage NotificationMessage

definition isinstance_str :: "pyval \<Rightarrow> bool" where
  "isinstance_str v = (case v of VStr s \<Rightarrow> True | _ \<Rightarrow> False)"

definition isinstance_list :: "pyval \<Rightarrow> bool" where
  "isinstance_list v = (case v of VList xs \<Rightarrow> True | _ \<Rightarrow> False)"

definition isinstance_Node :: "pyval \<Rightarrow> bool" where
  "isinstance_Node v = (case v of VNode n \<Rightarrow> True | _ \<Rightarrow> False)"

definition isinstance_NotificationMessage :: "pyval \<Rightarrow> bool" where
  "isinstance_NotificationMessage v = (case v of VMessage m \<Rightarrow> True | _ \<Rightarrow> False)"

text \<open>
  Projections out of a value, read only behind the matching \<open>isinstance\<close> check; on any
  other value they return an empty default that no path of the model uses.
\<close>

definition the_str :: "pyval \<Rightarrow> pystr" where
  "the_str v = (case v of VStr s \<Rightarrow> s | _ \<Rightarrow> [])"

definition the_list :: "pyval \<Rightarrow> pyval list" where
  "the_list v = (case v of VList xs \<Rightarrow> xs | _ \<Rightarrow> [])"

definition the_Node :: "pyval \<Rightarrow> Node" where
  "the_Node v = (case v of VNode n \<Rightarrow> n
     | _ \<Rightarrow> \<lparr>node_id = [], summarize = [], describe = []\<rparr>)"

definition the_NotificationMessage :: "pyval \<Rightarrow> NotificationMessage" where
  "the_NotificationMessage v = (case v of VMessage m \<Rightarrow> m
     | _ \<Rightarrow> \<lparr>recipients = [], summary = [], description = [], message_id = []\<rparr>)"

section \<open>UTF-8: \<open>str.encode()\<close> and \<open>bytes.decode()\<close>\<close>

text \<open>
  \<open>str.encode()\<close> raises \<open>UnicodeEncodeError\<close> on a surrogate (U+D800 to U+DFFF). A
  number from 0x110000 on is no code point of a Python string; the model raises there as
  well.
\<close>

definition utf8_encode_char :: "nat \<Rightarrow> pyexc + pybytes" where
  "utf8_encode_char c =
     (if c < 0x80 then Inr [c]
      else if c < 0x800 then Inr [0xC0 + c div 64, 0x80 + c mod 64]
      else if 0xD800 \<le> c \<and> c \<le> 0xDFFF then Inl UnicodeEncodeError
      else if c < 0x10000 then
        Inr [0xE0 + c div 4096, 0x80 + (c div 64) mod 64, 0x80 + c mod 64]
      else if c < 0x110000 then
        Inr [0xF0 + c div 262144, 0x80 + (c div 4096) mod 64,
             0x80 + (c div 64) mod 64, 0x80 + c mod 64]
      else Inl UnicodeEncodeError)"

fun str_encode :: "pystr \<Rightarrow> pyexc + pybytes" where
  "str_encode [] = Inr []"
| "str_encode (c # cs) =
     bind_exc (utf8_encode_char c) (\<lambda>bs. bind_exc (str_encode cs) (\<lambda>r. Inr (bs @ r)))"

text \<open>A Unicode scalar value: a code point that is no surrogate.\<close>

definition is_scalar_value :: "nat \<Rightarrow> bool" where
  "is_scalar_value c = (c < 0x110000 \<and> \<not> (0xD800 \<le> c \<and> c \<le> 0xDFFF))"

definition is_cont :: "nat \<Rightarrow> bool" where
  "is_cont b = (0x80 \<le> b \<and> b < 0xC0)"

text \<open>
  The strict decoder: a lead byte announces the length, continuation bytes follow, and an
  overlong form, a surrogate and a value above U+10FFFF are refused.
\<close>

fun bytes_decode :: "pybytes \<Rightarrow> pyexc + pystr" where
  "bytes_decode [] = Inr []"
| "bytes_decode (b0 # bs) =
     (if b0 < 0x80 then bind_exc (bytes_decode bs) (\<lambda>r. Inr (b0 # r))
      else if 0xC0 \<le> b0 \<and> b0 < 0xE0 then
        (case bs of
           b1 # r1 \<Rightarrow>
             (let c = (b0 - 0xC0) * 64 + (b1 - 0x80) in
              if is_cont b1 \<and> 0x80 \<le> c
              then bind_exc (bytes_decode r1) (\<lambda>r. Inr (c # r))
              else Inl UnicodeDecodeError)
         | _ \<Rightarrow> Inl UnicodeDecodeError)
      else if 0xE0 \<le> b0 \<and> b0 < 0xF0 then
        (case bs of
           b1 # b2 # r2 \<Rightarrow>
             (let c = (b0 - 0xE0) * 4096 + (b1 - 0x80) * 64 + (b2 - 0x80) in
              if is_cont b1 \<and> is_cont b2 \<and> 0x800 \<le> c \<and> \<not> (0xD800 \<le> c \<and> c \<le> 0xDFFF)
              then bind_exc (bytes_decode r2) (\<lambda>r. Inr (c # r))
              else Inl UnicodeDecodeError)
         | _ \<Rightarrow> Inl UnicodeDecodeError)
      else if 0xF0 \<le> b0 \<and> b0 < 0xF8 then
        (case bs of
           b1 # b2 # b3 # r3 \<Rightarrow>
             (let c = (b0 - 0xF0) * 262144 + (b1 - 0x80) * 4096 + (b2 - 0x80) * 64
                      + (b3 - 0x80) in
              if is_cont b1 \<and> is_cont b2 \<and> is_cont b3 \<and> 0x10000 \<le> c \<and> c < 0x110000
              then bind_exc (bytes_decode r3) (\<lambda>r. Inr (c # r))
              else Inl UnicodeDecodeError)
         | _ \<Rightarrow> Inl UnicodeDecodeError)
      else Inl UnicodeDecodeError)"

text \<open>The method call \<open>v.encode()\<close> on any value: only a string has the method.\<close>

definition encode :: "pyval \<Rightarrow> pyexc + pybytes" where
  "encode v = (case v of VStr s \<Rightarrow> str_encode s | _ \<Rightarrow> Inl AttributeError)"

section \<open>Base64 with alternative characters\<close>

text \<open>
  \<open>table_b2a_base64\<close> is the standard alphabet \<open>A-Z a-z 0-9 + /\<close> by index, and
  \<open>table_a2b_base64\<close> its inverse, in which the padding character \<open>=\<close> stands for 0 as
  in CPython's table.
\<close>

definition table_b2a_base64 :: "nat \<Rightarrow> nat" where
  "table_b2a_base64 i =
     (if i < 26 then 65 + i
      else if i < 52 then 97 + (i - 26)
      else if i < 62 then 48 + (i - 52)
      else if i = 62 then 43
      else 47)"

definition table_a2b_base64 :: "nat \<Rightarrow> nat option" where
  "table_a2b_base64 c =
     (if 65 \<le> c \<and> c \<le> 90 then Some (c - 65)
      else if 97 \<le> c \<and> c \<le> 122 then Some (c - 71)
      else if 48 \<le> c \<and> c \<le> 57 then Some (c + 4)
      else if c = 43 then Some 62
      else if c = 47 then Some 63
      else if c = 61 then Some 0
      else None)"

fun b2a_base64 :: "pybytes \<Rightarrow> pybytes" where
  "b2a_base64 (a # b # c # rest) =
     table_b2a_base64 (a div 4)
     # table_b2a_base64 ((a mod 4) * 16 + b div 16)
     # table_b2a_base64 ((b mod 16) * 4 + c div 64)
     # table_b2a_base64 (c mod 64)
     # b2a_base64 rest"
| "b2a_base64 [a, b] =
     [table_b2a_base64 (a div 4),
      table_b2a_base64 ((a mod 4) * 16 + b div 16),
      table_b2a_base64 ((b mod 16) * 4),
      61]"
| "b2a_base64 [a] =
     [table_b2a_base64 (a div 4), table_b2a_base64 ((a mod 4) * 16), 61, 61]"
| "b2a_base64 [] = []"

text \<open>\<open>bytes.maketrans(frm, to)\<close> and \<open>bytes.translate(table)\<close>.\<close>

definition maketrans :: "pybytes \<Rightarrow> pybytes \<Rightarrow> (nat \<times> nat) list" where
  "maketrans frm to = zip frm to"

definition translate :: "(nat \<times> nat) list \<Rightarrow> pybytes \<Rightarrow> pybytes" where
  "translate table s = map (\<lambda>c. case map_of table c of None \<Rightarrow> c | Some d \<Rightarrow> d) s"

definition b64encode :: "pybytes \<Rightarrow> pybytes \<Rightarrow> pybytes" where
  "b64encode s altchars = translate (maketrans (str_lit ''+/'') altchars) (b2a_base64 s)"

text \<open>
  \<open>binascii.a2b_base64\<close> as CPython's loop: \<open>leftchar\<close> collects the bits, \<open>leftbits\<close>
  counts them, \<open>quad_pos\<close> is the position in the group of four. Characters outside the
  alphabet are skipped, a padding character in place ends the input, and bits left over at
  the end are an error.
\<close>

fun binascii_find_valid :: "pybytes \<Rightarrow> nat \<Rightarrow> nat option" where
  "binascii_find_valid [] num = None"
| "binascii_find_valid (c # cs) num =
     (if c \<le> 0x7f \<and> table_a2b_base64 c \<noteq> None
      then (if num = 0 then Some c else binascii_find_valid cs (num - 1))
      else binascii_find_valid cs num)"

fun a2b_loop :: "pybytes \<Rightarrow> nat \<Rightarrow> nat \<Rightarrow> nat \<Rightarrow> pybytes \<Rightarrow> pyexc + pybytes" where
  "a2b_loop [] leftchar leftbits quad_pos out =
     (if leftbits \<noteq> 0 then Inl BinasciiError else Inr out)"
| "a2b_loop (c # cs) leftchar leftbits quad_pos out =
     (if c > 0x7f \<or> c = 13 \<or> c = 10 \<or> c = 32
      then a2b_loop cs leftchar leftbits quad_pos out
      else if c = 61 then
        (if quad_pos < 2 \<or> (quad_pos = 2 \<and> binascii_find_valid (c # cs) 1 \<noteq> Some 61)
         then a2b_loop cs leftchar leftbits quad_pos out
         else Inr out)
      else
        (case table_a2b_base64 c of
           None \<Rightarrow> a2b_loop cs leftchar leftbits quad_pos out
         | Some v \<Rightarrow>
             (if leftbits + 6 \<ge> 8
              then a2b_loop cs ((leftchar * 64 + v) mod 2 ^ (leftbits + 6 - 8))
                     (leftbits + 6 - 8) ((quad_pos + 1) mod 4)
                     (out @ [((leftchar * 64 + v) div 2 ^ (leftbits + 6 - 8)) mod 256])
              else a2b_loop cs (leftchar * 64 + v) (leftbits + 6)
                     ((quad_pos + 1) mod 4) out)))"

definition a2b_base64 :: "pybytes \<Rightarrow> pyexc + pybytes" where
  "a2b_base64 s = a2b_loop s 0 0 0 []"

text \<open>
  \<open>base64._bytes_from_decode_data\<close> on a string: its ASCII encoding, or \<open>ValueError\<close>.
\<close>

definition bytes_from_decode_data :: "pystr \<Rightarrow> pyexc + pybytes" where
  "bytes_from_decode_data s = (if list_all (\<lambda>c. c < 128) s then Inr s else Inl ValueError)"

definition is_b64_char :: "nat \<Rightarrow> bool" where
  "is_b64_char c =
     ((65 \<le> c \<and> c \<le> 90) \<or> (97 \<le> c \<and> c \<le> 122) \<or> (48 \<le> c \<and> c \<le> 57) \<or> c = 43 \<or> c = 47)"

text \<open>The check of \<open>validate=True\<close>: a full match of \<open>[A-Za-z0-9+/]*={0,2}\<close>.\<close>

definition b64_validate_fullmatch :: "pybytes \<Rightarrow> bool" where
  "b64_validate_fullmatch s =
     (dropWhile is_b64_char s = [] \<or> dropWhile is_b64_char s = [61]
      \<or> dropWhile is_b64_char s = [61, 61])"

definition b64decode :: "pystr \<Rightarrow> pybytes \<Rightarrow> bool \<Rightarrow> pyexc + pybytes" where
  "b64decode s altchars validate =
     bind_exc (bytes_from_decode_data s) (\<lambda>b.
       (if validate \<and> \<not> b64_validate_fullmatch (translate (maketrans altchars (str_lit ''+/'')) b)
        then Inl BinasciiError
        else a2b_base64 (translate (maketrans altchars (str_lit ''+/'')) b)))"

section \<open>The module \<open>kcidb.misc\<close>\<close>

text \<open>
  \<open>NOTIFICATION_MESSAGE_SUMMARY_RE.fullmatch\<close> for the pattern \<open>[^\x00-\x1f\x7f]*\<close> and
  \<open>SUBSCRIPTION_RE.fullmatch\<close> for \<open>([A-Za-z0-9][A-Za-z0-9_]*)?\<close>.
\<close>

definition NOTIFICATION_MESSAGE_SUMMARY_RE_fullmatch :: "pystr \<Rightarrow> bool" where
  "NOTIFICATION_MESSAGE_SUMMARY_RE_fullmatch s = list_all (\<lambda>c. \<not> (c \<le> 0x1f \<or> c = 0x7f)) s"

definition is_alnum :: "nat \<Rightarrow> bool" where
  "is_alnum c = ((65 \<le> c \<and> c \<le> 90) \<or> (97 \<le> c \<and> c \<le> 122) \<or> (48 \<le> c \<and> c \<le> 57))"

definition SUBSCRIPTION_RE_fullmatch :: "pystr \<Rightarrow> bool" where
  "SUBSCRIPTION_RE_fullmatch s =
     (case s of [] \<Rightarrow> True
      | c # cs \<Rightarrow> is_alnum c \<and> list_all (\<lambda>d. is_alnum d \<or> d = 95) cs)"

definition startswith :: "pystr \<Rightarrow> pystr \<Rightarrow> bool" where
  "startswith s p = (take (length p) s = p)"

definition endswith :: "pystr \<Rightarrow> pystr \<Rightarrow> bool" where
  "endswith s p = (length p \<le> length s \<and> drop (length s - length p) s = p)"

text \<open>
  \<open>is_valid_firestore_id\<close>: the conjunction is evaluated left to right and stops at the
  first false operand; a \<open>UnicodeError\<close> raised on the way is caught and gives \<open>False\<close>.
  The test \<open>"/" not in value\<close> has a needle of one character, so it is membership of
  that character.
\<close>

definition is_valid_firestore_id_body :: "pyval \<Rightarrow> pyexc + bool" where
  "is_valid_firestore_id_body v =
     (if \<not> isinstance_str v then Inr False
      else bind_exc (encode v) (\<lambda>b.
        Inr (length b \<le> 1500
             \<and> v \<noteq> VStr (str_lit ''.'')
             \<and> v \<noteq> VStr (str_lit ''..'')
             \<and> 47 \<notin> set (the_str v)
             \<and> \<not> (startswith (the_str v) (str_lit ''__'')
                    \<and> endswith (the_str v) (str_lit ''__'')))))"

definition is_valid_firestore_id :: "pyval \<Rightarrow> pyexc + bool" where
  "is_valid_firestore_id v =
     (case is_valid_firestore_id_body v of
        Inl e \<Rightarrow> (if is_UnicodeError e then Inr False else Inl e)
      | Inr r \<Rightarrow> Inr r)"

text \<open>
  \<open>NotificationMessage.__init__\<close>, assertion by assertion in the order of the source.
  The first check of the \<open>id\<close> argument calls \<open>id.encode()\<close> before the check that the
  argument is a string.
\<close>

definition NotificationMessage_init ::
  "pyval \<Rightarrow> pyval \<Rightarrow> pyval \<Rightarrow> pyval \<Rightarrow> pyexc + NotificationMessage" where
  "NotificationMessage_init recipients_v summary_v description_v id_v =
     assert_that (isinstance_list recipients_v) (
     assert_that (list_all isinstance_str (the_list recipients_v)) (
     assert_that (isinstance_str summary_v) (
     assert_that (NOTIFICATION_MESSAGE_SUMMARY_RE_fullmatch (the_str summary_v)) (
     bind_exc (encode summary_v) (\<lambda>sb.
     assert_that (length sb \<le> 256) (
     assert_that (isinstance_str description_v) (
     bind_exc (encode id_v) (\<lambda>ib.
     assert_that (length ib \<le> 4096) (
     assert_that (isinstance_str id_v) (
     bind_exc (encode id_v) (\<lambda>ib'.
     assert_that (length ib' \<le> 256) (
     Inr \<lparr>recipients = map the_str (the_list recipients_v),
          summary = the_str summary_v,
          description = the_str description_v,
          message_id = the_str id_v\<rparr>))))))))))))"

text \<open>
  A call of the constructor: an argument left out takes its default, the empty string.
\<close>

definition NotificationMessage_new ::
  "pyval \<Rightarrow> pyval option \<Rightarrow> pyval option \<Rightarrow> pyval option \<Rightarrow> pyexc + NotificationMessage" where
  "NotificationMessage_new recipients_v summary_o description_o id_o =
     NotificationMessage_init recipients_v
       (case summary_o of None \<Rightarrow> VStr (str_lit '''') | Some v \<Rightarrow> v)
       (case description_o of None \<Rightarrow> VStr (str_lit '''') | Some v \<Rightarrow> v)
       (case id_o of None \<Rightarrow> VStr (str_lit '''') | Some v \<Rightarrow> v)"

text \<open>\<open>Notification._to_id_part\<close> and \<open>Notification._from_id_part\<close>.\<close>

definition to_id_part :: "pystr \<Rightarrow> pyexc + pystr" where
  "to_id_part string =
     bind_exc (str_encode string) (\<lambda>b. bytes_decode (b64encode b (str_lit ''+-'')))"

definition from_id_part :: "pystr \<Rightarrow> pyexc + pystr" where
  "from_id_part id_part = bind_exc (b64decode id_part (str_lit ''+-'') True) bytes_decode"

text \<open>
  The attributes of a constructed \<open>Notification\<close> (\<open>notification_id\<close> is the attribute
  \<open>id\<close>).
\<close>

record Notification =
  obj_list_name :: pystr
  obj :: Node
  subscription :: pystr
  message :: NotificationMessage
  notification_id :: pystr

text \<open>
  \<open>Notification.__init__\<close>. The dictionary \<open>schema.LATEST.tree\<close> of \<open>kcidb.io\<close> is not
  among the sources; it is the parameter \<open>tree\<close>, and \<open>in\<close> tests its keys.
\<close>

definition Notification_init ::
  "(pystr \<rightharpoonup> pystr list) \<Rightarrow> pyval \<Rightarrow> pyval \<Rightarrow> pyval \<Rightarrow> pyval \<Rightarrow> pyexc + Notification" where
  "Notification_init tree obj_list_name_v obj_v subscription_v message_v =
     assert_that (isinstance_str obj_list_name_v) (
     assert_that (the_str obj_list_name_v \<noteq> []) (
     assert_that (tree (the_str obj_list_name_v) \<noteq> None) (
     assert_that (isinstance_Node obj_v) (
     assert_that (isinstance_str subscription_v) (
     assert_that (SUBSCRIPTION_RE_fullmatch (the_str subscription_v)) (
     bind_exc (encode subscription_v) (\<lambda>sb.
     assert_that (length sb \<le> 64) (
     assert_that (isinstance_NotificationMessage message_v) (
     bind_exc (to_id_part (node_id (the_Node obj_v))) (\<lambda>p1.
     bind_exc (to_id_part (message_id (the_NotificationMessage message_v))) (\<lambda>p2.
     bind_exc (is_valid_firestore_id
                 (VStr (the_str subscription_v @ str_lit '':'' @ the_str obj_list_name_v
                        @ str_lit '':'' @ p1 @ str_lit '':'' @ p2))) (\<lambda>ok.
     assert_that ok (
     Inr \<lparr>obj_list_name = the_str obj_list_name_v,
          obj = the_Node obj_v,
          subscription = the_str subscription_v,
          message = the_NotificationMessage message_v,
          notification_id =
            the_str subscription_v @ str_lit '':'' @ the_str obj_list_name_v
            @ str_lit '':'' @ p1 @ str_lit '':'' @ p2\<rparr>)))))))))))))"














section \<open>Properties\<close>

subsection \<open>UTF-8 encoding and decoding\<close>

lemma utf8_encode_char_Inl: "utf8_encode_char c = Inl e \<Longrightarrow> e = UnicodeEncodeError"
  by (auto simp: utf8_encode_char_def split: if_splits)

lemma str_encode_Inl: "str_encode s = Inl e \<Longrightarrow> e = UnicodeEncodeError"
proof (induction s)
  case Nil
  then show ?case by simp
next
  case (Cons c cs)
  then show ?case
    by (auto simp: bind_exc_def split: sum.splits dest: utf8_encode_char_Inl)
qed

lemma str_encode_append:
  "str_encode (a @ b) =
     bind_exc (str_encode a) (\<lambda>x. bind_exc (str_encode b) (\<lambda>y. Inr (x @ y)))"
  by (induction a) (auto simp: bind_exc_def split: sum.splits)

lemma str_encode_ascii: "list_all (\<lambda>c. c < 128) s \<Longrightarrow> str_encode s = Inr s"
  by (induction s) (simp_all add: utf8_encode_char_def bind_exc_def)

lemma bytes_decode_ascii: "list_all (\<lambda>c. c < 128) b \<Longrightarrow> bytes_decode b = Inr b"
  by (induction b) (simp_all add: bind_exc_def)

lemma utf8_digits_three: "(c::nat) div 4096 * 4096 + (c div 64) mod 64 * 64 + c mod 64 = c"
proof -
  define D X Y Z where "D = c div 64" and "X = D div 64" and "Y = D mod 64" and "Z = c mod 64"
  have a: "c div 4096 = X" by (simp add: X_def D_def div_mult2_eq [symmetric])
  have e1: "D = X * 64 + Y" by (simp add: X_def Y_def)
  have e2: "c = D * 64 + Z" by (simp add: D_def Z_def)
  have "X * 4096 + Y * 64 + Z = c" unfolding e2 e1 by simp
  then show ?thesis unfolding a by (simp only: Y_def Z_def D_def)
qed

lemma utf8_digits_four: "(c::nat) div 262144 * 262144 + (c div 4096) mod 64 * 4096 + (c div 64) mod 64 * 64
               + c mod 64 = c"
proof -
  define D X Y where "D = c div 4096" and "X = D div 64" and "Y = D mod 64"
  have a: "c div 262144 = X" by (simp add: X_def D_def div_mult2_eq [symmetric])
  have e1: "D = X * 64 + Y" by (simp add: X_def Y_def)
  have "X * 262144 + Y * 4096 = D * 4096" unfolding e1 by simp
  then have "c div 262144 * 262144 + (c div 4096) mod 64 * 4096 = c div 4096 * 4096"
    unfolding a by (simp only: Y_def D_def)
  then show ?thesis using utf8_digits_three [of c] by (simp only:)
qed

lemma bytes_decode_two:
  "h < 32 \<Longrightarrow> l < 64 \<Longrightarrow> 0x80 \<le> h * 64 + l \<Longrightarrow>
   bytes_decode ((0xC0 + h) # (0x80 + l) # rest) =
     bind_exc (bytes_decode rest) (\<lambda>r. Inr ((h * 64 + l) # r))"
  by (simp add: is_cont_def)

lemma bytes_decode_three:
  "h < 16 \<Longrightarrow> m < 64 \<Longrightarrow> l < 64 \<Longrightarrow> 0x800 \<le> h * 4096 + m * 64 + l \<Longrightarrow>
   \<not> (0xD800 \<le> h * 4096 + m * 64 + l \<and> h * 4096 + m * 64 + l \<le> 0xDFFF) \<Longrightarrow>
   bytes_decode ((0xE0 + h) # (0x80 + m) # (0x80 + l) # rest) =
     bind_exc (bytes_decode rest) (\<lambda>r. Inr ((h * 4096 + m * 64 + l) # r))"
  by (simp add: is_cont_def)

lemma bytes_decode_four:
  "h < 8 \<Longrightarrow> k < 64 \<Longrightarrow> m < 64 \<Longrightarrow> l < 64 \<Longrightarrow>
   0x10000 \<le> h * 262144 + k * 4096 + m * 64 + l \<Longrightarrow>
   h * 262144 + k * 4096 + m * 64 + l < 0x110000 \<Longrightarrow>
   bytes_decode ((0xF0 + h) # (0x80 + k) # (0x80 + m) # (0x80 + l) # rest) =
     bind_exc (bytes_decode rest) (\<lambda>r. Inr ((h * 262144 + k * 4096 + m * 64 + l) # r))"
  by (simp add: is_cont_def)

lemma bytes_decode_utf8_encode_char:
  assumes "utf8_encode_char c = Inr bs"
  shows "bytes_decode (bs @ rest) = bind_exc (bytes_decode rest) (\<lambda>r. Inr (c # r))"
proof -
  consider (one) "c < 0x80" | (two) "0x80 \<le> c" "c < 0x800"
    | (three) "0x800 \<le> c" "c < 0x10000" "\<not> (0xD800 \<le> c \<and> c \<le> 0xDFFF)"
    | (four) "0x10000 \<le> c" "c < 0x110000"
    using assms by (auto simp: utf8_encode_char_def split: if_splits)
  then show ?thesis
  proof cases
    case one
    with assms show ?thesis by (auto simp: utf8_encode_char_def)
  next
    case two
    then have bs: "bs = [0xC0 + c div 64, 0x80 + c mod 64]"
      using assms by (auto simp: utf8_encode_char_def)
    have h: "c div 64 < 32" using two by simp
    have l: "c mod 64 < 64" by simp
    have c: "c div 64 * 64 + c mod 64 = c" by simp
    from two have v: "0x80 \<le> c div 64 * 64 + c mod 64" unfolding c by simp
    show ?thesis
      unfolding bs using bytes_decode_two [OF h l v, of rest] by (simp only: c append.simps)
  next
    case three
    then have bs: "bs = [0xE0 + c div 4096, 0x80 + (c div 64) mod 64, 0x80 + c mod 64]"
      using assms by (auto simp: utf8_encode_char_def)
    have h: "c div 4096 < 16" using three by simp
    have m: "(c div 64) mod 64 < 64" by simp
    have l: "c mod 64 < 64" by simp
    have c: "c div 4096 * 4096 + (c div 64) mod 64 * 64 + c mod 64 = c"
      by (rule utf8_digits_three)
    from three have v: "0x800 \<le> c div 4096 * 4096 + (c div 64) mod 64 * 64 + c mod 64"
      and w: "\<not> (0xD800 \<le> c div 4096 * 4096 + (c div 64) mod 64 * 64 + c mod 64
               \<and> c div 4096 * 4096 + (c div 64) mod 64 * 64 + c mod 64 \<le> 0xDFFF)"
      unfolding c by simp_all
    show ?thesis
      unfolding bs using bytes_decode_three [OF h m l v w, of rest]
      by (simp only: c append.simps)
  next
    case four
    then have bs: "bs = [0xF0 + c div 262144, 0x80 + (c div 4096) mod 64,
             0x80 + (c div 64) mod 64, 0x80 + c mod 64]"
      using assms by (auto simp: utf8_encode_char_def)
    have h: "c div 262144 < 8" using four by simp
    have k: "(c div 4096) mod 64 < 64" by simp
    have m: "(c div 64) mod 64 < 64" by simp
    have l: "c mod 64 < 64" by simp
    have c: "c div 262144 * 262144 + (c div 4096) mod 64 * 4096 + (c div 64) mod 64 * 64
               + c mod 64 = c"
      by (rule utf8_digits_four)
    from four have v: "0x10000 \<le> c div 262144 * 262144 + (c div 4096) mod 64 * 4096
               + (c div 64) mod 64 * 64 + c mod 64"
      and w: "c div 262144 * 262144 + (c div 4096) mod 64 * 4096
               + (c div 64) mod 64 * 64 + c mod 64 < 0x110000"
      unfolding c by simp_all
    show ?thesis
      unfolding bs using bytes_decode_four [OF h k m l v w, of rest]
      by (simp only: c append.simps)
  qed
qed

lemma bytes_decode_str_encode: "str_encode s = Inr b \<Longrightarrow> bytes_decode b = Inr s"
proof (induction s arbitrary: b)
  case Nil
  then show ?case by simp
next
  case (Cons c cs)
  then obtain bs r where bs: "utf8_encode_char c = Inr bs" and r: "str_encode cs = Inr r"
    and b: "b = bs @ r"
    by (auto simp: bind_exc_def split: sum.splits)
  from Cons.IH [OF r] show ?case
    by (simp add: b bytes_decode_utf8_encode_char [OF bs] bind_exc_def)
qed

subsection \<open>Base64 encoding and decoding\<close>

lemma is_b64_char_table: "is_b64_char (table_b2a_base64 i)"
  by (auto simp: is_b64_char_def table_b2a_base64_def)

lemma table_a2b_b2a: "i < 64 \<Longrightarrow> table_a2b_base64 (table_b2a_base64 i) = Some i"
  by (auto simp: table_a2b_base64_def table_b2a_base64_def)

lemma is_b64_char_facts:
  "is_b64_char c \<Longrightarrow> c < 128 \<and> c \<noteq> 13 \<and> c \<noteq> 10 \<and> c \<noteq> 32 \<and> c \<noteq> 61 \<and> c \<noteq> 45 \<and> c \<noteq> 58"
  by (auto simp: is_b64_char_def)

lemma translate_encode:
  "translate (maketrans (str_lit ''+/'') (str_lit ''+-'')) s = map (\<lambda>c. if c = 47 then 45 else c) s"
  by (auto simp: translate_def maketrans_def str_lit_def)

lemma translate_decode:
  "translate (maketrans (str_lit ''+-'') (str_lit ''+/'')) s = map (\<lambda>c. if c = 45 then 47 else c) s"
  by (auto simp: translate_def maketrans_def str_lit_def)

lemma b2a_base64_chars: "list_all (\<lambda>c. is_b64_char c \<or> c = 61) (b2a_base64 bs)"
  by (induction bs rule: b2a_base64.induct) (simp_all add: is_b64_char_table)

lemma translate_round:
  "list_all (\<lambda>c. is_b64_char c \<or> c = 61) s \<Longrightarrow>
   map (\<lambda>c. if c = 45 then 47 else c) (map (\<lambda>c. if c = 47 then 45 else c) s) = s"
  by (induction s) (auto dest: is_b64_char_facts)

lemma not_is_b64_char_pad: "\<not> is_b64_char 61"
  by (simp add: is_b64_char_def)

lemma b2a_base64_validate: "b64_validate_fullmatch (b2a_base64 bs)"
  by (induction bs rule: b2a_base64.induct)
     (simp_all add: b64_validate_fullmatch_def is_b64_char_table not_is_b64_char_pad)

lemma length_b2a_base64: "length (b2a_base64 bs) = 4 * ((length bs + 2) div 3)"
proof (induction bs rule: b2a_base64.induct)
  case (1 a b c rest)
  have "(length (a # b # c # rest) + 2) div 3 = Suc ((length rest + 2) div 3)" by simp
  with 1 show ?case by simp
qed simp_all

lemma a2b_loop_step:
  assumes "i < 64"
  shows "a2b_loop (table_b2a_base64 i # cs) leftchar leftbits quad_pos out =
     (if leftbits + 6 \<ge> 8
      then a2b_loop cs ((leftchar * 64 + i) mod 2 ^ (leftbits + 6 - 8))
             (leftbits + 6 - 8) ((quad_pos + 1) mod 4)
             (out @ [((leftchar * 64 + i) div 2 ^ (leftbits + 6 - 8)) mod 256])
      else a2b_loop cs (leftchar * 64 + i) (leftbits + 6) ((quad_pos + 1) mod 4) out)"
  using is_b64_char_facts [OF is_b64_char_table [of i]] table_a2b_b2a [OF assms]
  by (simp del: One_nat_def)


lemma divmod_digit: "q < m \<Longrightarrow> (q + k * m) div m = k \<and> (q + k * m) mod m = (q::nat)"
  by simp

lemma a2b_digits_1:
  assumes "q2 < 16" "x1 < 64" "r1 < 4"
  shows "((x1 * 64 + (r1 * 16 + q2)) div 16) mod 256 = x1 * 4 + r1
         \<and> (x1 * 64 + (r1 * 16 + q2)) mod 16 = (q2::nat)"
proof -
  have e: "x1 * 64 + (r1 * 16 + q2) = q2 + (x1 * 4 + r1) * 16" by simp
  have k: "(x1 * 4 + r1) mod 256 = x1 * 4 + r1" using assms by simp
  show ?thesis unfolding e using divmod_digit [OF assms(1), of "x1 * 4 + r1"] k
    by (simp only:)
qed

lemma a2b_digits_2:
  assumes "q3 < 4" "q2 < 16" "r2 < 16"
  shows "((q2 * 64 + (r2 * 4 + q3)) div 4) mod 256 = q2 * 16 + r2
         \<and> (q2 * 64 + (r2 * 4 + q3)) mod 4 = (q3::nat)"
proof -
  have e: "q2 * 64 + (r2 * 4 + q3) = q3 + (q2 * 16 + r2) * 4" by simp
  have k: "(q2 * 16 + r2) mod 256 = q2 * 16 + r2" using assms by simp
  show ?thesis unfolding e using divmod_digit [OF assms(1), of "q2 * 16 + r2"] k
    by (simp only:)
qed
lemma a2b_loop_pad_end:
  "2 < quad_pos \<Longrightarrow> a2b_loop (61 # cs) leftchar leftbits quad_pos out = Inr out"
  by simp

lemma a2b_loop_pad_pair:
  "a2b_loop (61 # 61 # cs) leftchar leftbits 2 out = Inr out"
  by (simp add: table_a2b_base64_def)

lemma a2b_loop_Nil: "a2b_loop [] leftchar 0 quad_pos out = Inr out"
  by simp

declare a2b_loop.simps [simp del]

lemma a2b_loop_step0:
  "i < 64 \<Longrightarrow> a2b_loop (table_b2a_base64 i # cs) 0 0 0 out = a2b_loop cs i 6 1 out"
  by (simp add: a2b_loop_step)

lemma a2b_loop_step1:
  assumes "i < 64"
  shows "a2b_loop (table_b2a_base64 i # cs) leftchar 6 1 out =
     a2b_loop cs ((leftchar * 64 + i) mod 16) 4 2 (out @ [(leftchar * 64 + i) div 16 mod 256])"
proof -
  have a: "(8::nat) \<le> 6 + 6" "(6::nat) + 6 - 8 = 4" "((1::nat) + 1) mod 4 = 2" "(2::nat) ^ 4 = 16"
    by simp_all
  show ?thesis by (subst a2b_loop_step [OF assms]) (simp only: a if_True)
qed

lemma a2b_loop_step2:
  assumes "i < 64"
  shows "a2b_loop (table_b2a_base64 i # cs) leftchar 4 2 out =
     a2b_loop cs ((leftchar * 64 + i) mod 4) 2 3 (out @ [(leftchar * 64 + i) div 4 mod 256])"
proof -
  have a: "(8::nat) \<le> 4 + 6" "(4::nat) + 6 - 8 = 2" "((2::nat) + 1) mod 4 = 3" "(2::nat) ^ 2 = 4"
    by simp_all
  show ?thesis by (subst a2b_loop_step [OF assms]) (simp only: a if_True)
qed

lemma a2b_loop_step3:
  assumes "i < 64"
  shows "a2b_loop (table_b2a_base64 i # cs) leftchar 2 3 out =
     a2b_loop cs 0 0 0 (out @ [(leftchar * 64 + i) mod 256])"
proof -
  have a: "(8::nat) \<le> 2 + 6" "(2::nat) + 6 - 8 = 0" "((3::nat) + 1) mod 4 = 0" "(2::nat) ^ 0 = 1"
    "(leftchar * 64 + i) mod 1 = 0" "(leftchar * 64 + i) div 1 = leftchar * 64 + i"
    by simp_all
  show ?thesis by (subst a2b_loop_step [OF assms]) (simp only: a if_True)
qed

lemma a2b_loop_pair:
  assumes "x1 < 64" "r1 < 4" "q2 < 16"
  shows "a2b_loop (table_b2a_base64 x1 # table_b2a_base64 (r1 * 16 + q2) # cs) 0 0 0 out =
         a2b_loop cs q2 4 2 (out @ [x1 * 4 + r1])"
proof -
  have i2: "r1 * 16 + q2 < 64" using assms by simp
  have "a2b_loop (table_b2a_base64 x1 # table_b2a_base64 (r1 * 16 + q2) # cs) 0 0 0 out =
        a2b_loop (table_b2a_base64 (r1 * 16 + q2) # cs) x1 6 1 out"
    by (rule a2b_loop_step0 [OF assms(1)])
  also have "\<dots> = a2b_loop cs ((x1 * 64 + (r1 * 16 + q2)) mod 16) 4 2
                       (out @ [(x1 * 64 + (r1 * 16 + q2)) div 16 mod 256])"
    by (rule a2b_loop_step1 [OF i2])
  also have "\<dots> = a2b_loop cs q2 4 2 (out @ [x1 * 4 + r1])"
    using a2b_digits_1 [OF assms(3) assms(1) assms(2)] by (simp only:)
  finally show ?thesis .
qed

lemma a2b_loop_triple:
  assumes "x1 < 64" "r1 < 4" "q2 < 16" "r2 < 16" "q3 < 4"
  shows "a2b_loop (table_b2a_base64 x1 # table_b2a_base64 (r1 * 16 + q2)
                   # table_b2a_base64 (r2 * 4 + q3) # cs) 0 0 0 out =
         a2b_loop cs q3 2 3 (out @ [x1 * 4 + r1, q2 * 16 + r2])"
proof -
  have i3: "r2 * 4 + q3 < 64" using assms by simp
  have "a2b_loop (table_b2a_base64 x1 # table_b2a_base64 (r1 * 16 + q2)
                   # table_b2a_base64 (r2 * 4 + q3) # cs) 0 0 0 out =
        a2b_loop (table_b2a_base64 (r2 * 4 + q3) # cs) q2 4 2 (out @ [x1 * 4 + r1])"
    by (rule a2b_loop_pair [OF assms(1) assms(2) assms(3)])
  also have "\<dots> = a2b_loop cs ((q2 * 64 + (r2 * 4 + q3)) mod 4) 2 3
                       ((out @ [x1 * 4 + r1]) @ [(q2 * 64 + (r2 * 4 + q3)) div 4 mod 256])"
    by (rule a2b_loop_step2 [OF i3])
  also have "\<dots> = a2b_loop cs q3 2 3 (out @ [x1 * 4 + r1, q2 * 16 + r2])"
    using a2b_digits_2 [OF assms(5) assms(3) assms(4)] by (simp only: append_assoc append.simps)
  finally show ?thesis .
qed

lemma a2b_loop_group:
  assumes "x1 < 64" "r1 < 4" "q2 < 16" "r2 < 16" "q3 < 4" "r3 < 64"
  shows "a2b_loop (table_b2a_base64 x1 # table_b2a_base64 (r1 * 16 + q2)
                   # table_b2a_base64 (r2 * 4 + q3) # table_b2a_base64 r3 # rest) 0 0 0 out =
         a2b_loop rest 0 0 0 (out @ [x1 * 4 + r1, q2 * 16 + r2, q3 * 64 + r3])"
proof -
  have k: "(q3 * 64 + r3) mod 256 = q3 * 64 + r3" using assms(5,6) by simp
  have "a2b_loop (table_b2a_base64 x1 # table_b2a_base64 (r1 * 16 + q2)
                   # table_b2a_base64 (r2 * 4 + q3) # table_b2a_base64 r3 # rest) 0 0 0 out =
        a2b_loop (table_b2a_base64 r3 # rest) q3 2 3 (out @ [x1 * 4 + r1, q2 * 16 + r2])"
    by (rule a2b_loop_triple [OF assms(1) assms(2) assms(3) assms(4) assms(5)])
  also have "\<dots> = a2b_loop rest 0 0 0
                       ((out @ [x1 * 4 + r1, q2 * 16 + r2]) @ [(q3 * 64 + r3) mod 256])"
    by (rule a2b_loop_step3 [OF assms(6)])
  also have "\<dots> = a2b_loop rest 0 0 0 (out @ [x1 * 4 + r1, q2 * 16 + r2, q3 * 64 + r3])"
    by (simp only: k append_assoc append.simps)
  finally show ?thesis .
qed

lemma a2b_loop_tail2:
  assumes "x1 < 64" "r1 < 4" "q2 < 16" "r2 < 16"
  shows "a2b_loop [table_b2a_base64 x1, table_b2a_base64 (r1 * 16 + q2),
                   table_b2a_base64 (r2 * 4), 61] 0 0 0 out =
         Inr (out @ [x1 * 4 + r1, q2 * 16 + r2])"
  using a2b_loop_triple [OF assms, of 0 "[61]" out] by (simp add: a2b_loop_pad_end)

lemma a2b_loop_tail1:
  assumes "x1 < 64" "r1 < 4"
  shows "a2b_loop [table_b2a_base64 x1, table_b2a_base64 (r1 * 16), 61, 61] 0 0 0 out =
         Inr (out @ [x1 * 4 + r1])"
  using a2b_loop_pair [OF assms, of 0 "[61, 61]" out] by (simp add: a2b_loop_pad_pair)

lemma a2b_loop_b2a_base64:
  "list_all (\<lambda>b. b < 256) bs \<Longrightarrow> a2b_loop (b2a_base64 bs) 0 0 0 out = Inr (out @ bs)"
proof (induction bs arbitrary: out rule: b2a_base64.induct)
  case (1 a b c rest)
  then have lt: "a < 256" "b < 256" "c < 256" and rest: "list_all (\<lambda>b. b < 256) rest"
    by simp_all
  have d: "a div 4 < 64" "a mod 4 < 4" "b div 16 < 16" "b mod 16 < 16" "c div 64 < 4" "c mod 64 < 64"
    using lt by simp_all
  have e: "a div 4 * 4 + a mod 4 = a" "b div 16 * 16 + b mod 16 = b" "c div 64 * 64 + c mod 64 = c"
    by simp_all
  show ?case
    using a2b_loop_group [OF d, of "b2a_base64 rest" out] "1.IH" [OF rest, of "out @ [a, b, c]"]
    by (simp only: b2a_base64.simps e append_assoc append.simps)
next
  case (2 a b)
  then have lt: "a < 256" "b < 256" by simp_all
  have d: "a div 4 < 64" "a mod 4 < 4" "b div 16 < 16" "b mod 16 < 16"
    using lt by simp_all
  have e: "a div 4 * 4 + a mod 4 = a" "b div 16 * 16 + b mod 16 = b"
    by simp_all
  show ?case
    using a2b_loop_tail2 [OF d, of out] by (simp only: b2a_base64.simps e)
next
  case (3 a)
  then have lt: "a < 256" by simp
  have d: "a div 4 < 64" "a mod 4 < 4" using lt by simp_all
  have e: "a div 4 * 4 + a mod 4 = a" by simp
  show ?case
    using a2b_loop_tail1 [OF d, of out] by (simp only: b2a_base64.simps e)
next
  case 4
  then show ?case by (simp add: a2b_loop_Nil)
qed

subsection \<open>The identifier-part codec\<close>

lemma utf8_encode_char_scalar: "is_scalar_value c \<Longrightarrow> \<exists>bs. utf8_encode_char c = Inr bs"
  by (auto simp: is_scalar_value_def utf8_encode_char_def)

lemma utf8_encode_char_is_scalar: "utf8_encode_char c = Inr bs \<Longrightarrow> is_scalar_value c"
  by (auto simp: is_scalar_value_def utf8_encode_char_def split: if_splits)

lemma str_encode_scalar: "list_all is_scalar_value s \<Longrightarrow> \<exists>b. str_encode s = Inr b"
proof (induction s)
  case Nil
  then show ?case by simp
next
  case (Cons c cs)
  then obtain bs r where "utf8_encode_char c = Inr bs" "str_encode cs = Inr r"
    using utf8_encode_char_scalar [of c] by auto
  then show ?case by (simp add: bind_exc_def)
qed

lemma str_encode_is_scalar: "str_encode s = Inr b \<Longrightarrow> list_all is_scalar_value s"
  by (induction s arbitrary: b)
     (auto simp: bind_exc_def split: sum.splits dest: utf8_encode_char_is_scalar)

lemma utf8_encode_char_bytes: "utf8_encode_char c = Inr bs \<Longrightarrow> list_all (\<lambda>b. b < 256) bs"
  by (auto simp: utf8_encode_char_def split: if_splits)

lemma str_encode_bytes: "str_encode s = Inr b \<Longrightarrow> list_all (\<lambda>b. b < 256) b"
  by (induction s arbitrary: b)
     (auto simp: bind_exc_def split: sum.splits dest: utf8_encode_char_bytes)

lemma b64encode_ascii: "list_all (\<lambda>c. c < 128) (b64encode b (str_lit ''+-''))"
proof -
  have "list_all (\<lambda>c. c < 128) (map (\<lambda>c. if c = 47 then 45 else c) s)"
    if "list_all (\<lambda>c. is_b64_char c \<or> c = 61) s" for s
    using that by (induction s) (auto dest: is_b64_char_facts)
  then show ?thesis
    by (simp only: b64encode_def translate_encode b2a_base64_chars)
qed

lemma to_id_part_eq:
  "str_encode s = Inr b \<Longrightarrow> to_id_part s = Inr (b64encode b (str_lit ''+-''))"
  by (simp add: to_id_part_def bind_exc_def bytes_decode_ascii b64encode_ascii)

lemma to_id_part_Inr:
  "to_id_part s = Inr p \<Longrightarrow> \<exists>b. str_encode s = Inr b \<and> p = b64encode b (str_lit ''+-'')"
  by (cases "str_encode s") (auto simp: to_id_part_eq, simp add: to_id_part_def bind_exc_def)

lemma b64decode_b64encode:
  assumes "list_all (\<lambda>b. b < 256) b"
  shows "b64decode (b64encode b (str_lit ''+-'')) (str_lit ''+-'') True = Inr b"
proof -
  have tr: "translate (maketrans (str_lit ''+-'') (str_lit ''+/'')) (b64encode b (str_lit ''+-''))
            = b2a_base64 b"
    by (simp only: b64encode_def translate_encode translate_decode
        translate_round [OF b2a_base64_chars])
  have "a2b_base64 (b2a_base64 b) = Inr b"
    using a2b_loop_b2a_base64 [OF assms, of "[]"] by (simp add: a2b_base64_def)
  then show ?thesis
    using b64encode_ascii [of b]
    by (simp add: b64decode_def bytes_from_decode_data_def bind_exc_def tr b2a_base64_validate)
qed

text \<open>
  Claim C2. For every string \<open>s\<close> of Unicode scalar values (every string that UTF-8 can
  encode), \<open>_from_id_part(_to_id_part(s))\<close> returns \<open>s\<close>: neither call raises, and
  decoding the encoded part gives the original string back.
\<close>

theorem from_id_part_to_id_part:
  "list_all is_scalar_value s \<Longrightarrow> bind_exc (to_id_part s) from_id_part = Inr s"
proof -
  assume "list_all is_scalar_value s"
  then obtain b where b: "str_encode s = Inr b" using str_encode_scalar by blast
  have "from_id_part (b64encode b (str_lit ''+-'')) = Inr s"
    by (simp add: from_id_part_def b64decode_b64encode [OF str_encode_bytes [OF b]]
        bind_exc_def bytes_decode_str_encode [OF b])
  then show ?thesis by (simp add: to_id_part_eq [OF b] bind_exc_def)
qed

theorem from_id_part_to_id_part_witness:
  "list_all is_scalar_value [0x62, 0xE9, 0x20AC, 0x1F600]
   \<and> to_id_part [0x62, 0xE9, 0x20AC, 0x1F600] = Inr (str_lit ''YsOp4oKs8J+YgA=='')
   \<and> from_id_part (str_lit ''YsOp4oKs8J+YgA=='') = Inr [0x62, 0xE9, 0x20AC, 0x1F600]"
proof -
  have a: "list_all is_scalar_value [0x62, 0xE9, 0x20AC, 0x1F600]"
    by (simp add: is_scalar_value_def)
  have e: "str_encode [0x62, 0xE9, 0x20AC, 0x1F600]
           = Inr [0x62, 0xC3, 0xA9, 0xE2, 0x82, 0xAC, 0xF0, 0x9F, 0x98, 0x80]"
    by (simp add: utf8_encode_char_def bind_exc_def)
  have b: "to_id_part [0x62, 0xE9, 0x20AC, 0x1F600] = Inr (str_lit ''YsOp4oKs8J+YgA=='')"
    unfolding to_id_part_eq [OF e]
    by (simp add: b64encode_def translate_def maketrans_def table_b2a_base64_def str_lit_def)
  from from_id_part_to_id_part [OF a] b
  have "from_id_part (str_lit ''YsOp4oKs8J+YgA=='') = Inr [0x62, 0xE9, 0x20AC, 0x1F600]"
    by (simp add: bind_exc_def)
  with a b show ?thesis by simp
qed

subsection \<open>The key validator\<close>

lemma is_valid_firestore_id_eq:
  "is_valid_firestore_id v =
     Inr (case v of
            VStr s \<Rightarrow>
              (case str_encode s of Inl e \<Rightarrow> False | Inr b \<Rightarrow> length b \<le> 1500)
              \<and> s \<noteq> str_lit ''.'' \<and> s \<noteq> str_lit ''..'' \<and> 47 \<notin> set s
              \<and> \<not> (startswith s (str_lit ''__'') \<and> endswith s (str_lit ''__''))
          | _ \<Rightarrow> False)"
proof (cases v)
  case (VStr s)
  show ?thesis
  proof (cases "str_encode s")
    case (Inl e)
    then have "e = UnicodeEncodeError" by (rule str_encode_Inl)
    with Inl VStr show ?thesis
      by (simp add: is_valid_firestore_id_def is_valid_firestore_id_body_def isinstance_str_def
          encode_def bind_exc_def is_UnicodeError_def)
  next
    case (Inr b)
    with VStr show ?thesis
      by (simp add: is_valid_firestore_id_def is_valid_firestore_id_body_def isinstance_str_def
          encode_def bind_exc_def the_str_def)
  qed
qed (simp_all add: is_valid_firestore_id_def is_valid_firestore_id_body_def isinstance_str_def)

text \<open>
  Claim C5. \<open>is_valid_firestore_id\<close> returns a truth value on every value and never
  raises. The value is \<open>True\<close> exactly for a string whose UTF-8 encoding exists and has at
  most 1500 bytes, that is neither \<open>.\<close> nor \<open>..\<close>, holds no \<open>/\<close>, and does not both start
  and end with \<open>__\<close>. The listed examples evaluate as stated, a string of 1501 bytes
  gives \<open>False\<close>, and a string whose encoding raises gives \<open>False\<close>.
\<close>

theorem is_valid_firestore_id_total:
  "(\<forall>v. is_valid_firestore_id v =
     Inr (case v of
            VStr s \<Rightarrow>
              (case str_encode s of Inl e \<Rightarrow> False | Inr b \<Rightarrow> length b \<le> 1500)
              \<and> s \<noteq> str_lit ''.'' \<and> s \<noteq> str_lit ''..'' \<and> 47 \<notin> set s
              \<and> \<not> (startswith s (str_lit ''__'') \<and> endswith s (str_lit ''__''))
          | _ \<Rightarrow> False))
   \<and> is_valid_firestore_id (VStr (str_lit ''.'')) = Inr False
   \<and> is_valid_firestore_id (VStr (str_lit ''..'')) = Inr False
   \<and> is_valid_firestore_id (VStr (str_lit ''a/b'')) = Inr False
   \<and> is_valid_firestore_id (VStr (str_lit ''__x__'')) = Inr False
   \<and> is_valid_firestore_id (VStr (str_lit ''normal_id'')) = Inr True
   \<and> (\<forall>s b. str_encode s = Inr b \<and> length b = 1501 \<longrightarrow>
          is_valid_firestore_id (VStr s) = Inr False)
   \<and> (\<forall>s e. str_encode s = Inl e \<longrightarrow> is_valid_firestore_id (VStr s) = Inr False)"
proof -
  have ex: "is_valid_firestore_id (VStr (str_lit ''.'')) = Inr False"
    "is_valid_firestore_id (VStr (str_lit ''..'')) = Inr False"
    "is_valid_firestore_id (VStr (str_lit ''a/b'')) = Inr False"
    "is_valid_firestore_id (VStr (str_lit ''__x__'')) = Inr False"
    "is_valid_firestore_id (VStr (str_lit ''normal_id'')) = Inr True"
    by (simp_all add: is_valid_firestore_id_eq str_lit_def utf8_encode_char_def bind_exc_def
        startswith_def endswith_def)
  have long: "is_valid_firestore_id (VStr s) = Inr False"
    if "str_encode s = Inr b" "length b = 1501" for s b
    using that by (simp add: is_valid_firestore_id_eq)
  have bad: "is_valid_firestore_id (VStr s) = Inr False" if "str_encode s = Inl e" for s e
    using that by (simp add: is_valid_firestore_id_eq)
  show ?thesis using ex long bad is_valid_firestore_id_eq by blast
qed

theorem is_valid_firestore_id_total_witness:
  "str_encode (replicate 1501 65) = Inr (replicate 1501 65)
   \<and> length (replicate 1501 (65::nat)) = 1501
   \<and> is_valid_firestore_id (VStr (replicate 1501 65)) = Inr False
   \<and> str_encode [0xD800] = Inl UnicodeEncodeError
   \<and> is_valid_firestore_id (VStr [0xD800]) = Inr False
   \<and> is_valid_firestore_id (VInt 7) = Inr False"
proof -
  have a: "str_encode (replicate 1501 65) = Inr (replicate 1501 65)"
    by (rule str_encode_ascii) (simp add: list_all_iff)
  have b: "str_encode [0xD800] = Inl UnicodeEncodeError"
    by (simp add: utf8_encode_char_def bind_exc_def)
  from is_valid_firestore_id_total have
    "is_valid_firestore_id (VStr (replicate 1501 65)) = Inr False"
    using a by fastforce
  moreover from is_valid_firestore_id_total have "is_valid_firestore_id (VStr [0xD800]) = Inr False"
    using b by blast
  moreover from is_valid_firestore_id_total have "is_valid_firestore_id (VInt 7) = Inr False"
    by simp
  ultimately show ?thesis using a b by simp
qed

subsection \<open>Constructing a message\<close>

lemma assert_that_Inr: "assert_that b k = Inr x \<longleftrightarrow> b \<and> k = Inr x"
  by (simp add: assert_that_def)

lemma bind_exc_Inr: "bind_exc m f = Inr x \<longleftrightarrow> (\<exists>y. m = Inr y \<and> f y = Inr x)"
  by (cases m) (simp_all add: bind_exc_def)

lemma isinstance_str_iff: "isinstance_str v \<longleftrightarrow> (\<exists>s. v = VStr s)"
  by (cases v) (simp_all add: isinstance_str_def)

lemma isinstance_list_iff: "isinstance_list v \<longleftrightarrow> (\<exists>xs. v = VList xs)"
  by (cases v) (simp_all add: isinstance_list_def)

lemma isinstance_Node_iff: "isinstance_Node v \<longleftrightarrow> (\<exists>n. v = VNode n)"
  by (cases v) (simp_all add: isinstance_Node_def)

lemma isinstance_NotificationMessage_iff:
  "isinstance_NotificationMessage v \<longleftrightarrow> (\<exists>m. v = VMessage m)"
  by (cases v) (simp_all add: isinstance_NotificationMessage_def)

lemma the_simps:
  "the_str (VStr s) = s" "the_list (VList xs) = xs" "the_Node (VNode n) = n"
  "the_NotificationMessage (VMessage m) = m"
  by (simp_all add: the_str_def the_list_def the_Node_def the_NotificationMessage_def)

lemma isinstance_simps:
  "isinstance_str (VStr s)" "isinstance_list (VList xs)" "isinstance_Node (VNode n)"
  "isinstance_NotificationMessage (VMessage m)"
  by (simp_all add: isinstance_str_def isinstance_list_def isinstance_Node_def
      isinstance_NotificationMessage_def)

lemma list_all_isinstance_str_map: "list_all isinstance_str (map VStr rs)"
  by (induction rs) (simp_all add: isinstance_str_def)

lemma map_the_str_map: "map the_str (map VStr rs) = rs" "map (the_str \<circ> VStr) rs = rs"
  by (induction rs) (simp_all add: the_str_def)

lemma NotificationMessage_init_ok:
  assumes "NOTIFICATION_MESSAGE_SUMMARY_RE_fullmatch s"
    and "str_encode s = Inr sb" and "length sb \<le> 256"
    and "str_encode i = Inr ib" and "length ib \<le> 256"
  shows "NotificationMessage_init (VList (map VStr rs)) (VStr s) (VStr d) (VStr i) =
         Inr \<lparr>recipients = rs, summary = s, description = d, message_id = i\<rparr>"
  using assms
  by (simp add: NotificationMessage_init_def assert_that_def bind_exc_def encode_def
      the_simps isinstance_simps list_all_isinstance_str_map map_the_str_map)

lemma NotificationMessage_init_Inr:
  assumes "NotificationMessage_init rv sv dv iv = Inr m"
  shows "\<exists>ib. rv = VList (map VStr (recipients m)) \<and> sv = VStr (summary m)
           \<and> dv = VStr (description m) \<and> iv = VStr (message_id m)
           \<and> str_encode (message_id m) = Inr ib \<and> length ib \<le> 256"
proof -
  from assms obtain xs s d i sb ib where
    v: "rv = VList xs" "sv = VStr s" "dv = VStr d" "iv = VStr i"
    and xs: "list_all isinstance_str xs"
    and ib: "str_encode i = Inr ib" "length ib \<le> 256"
    and m: "m = \<lparr>recipients = map the_str xs, summary = s, description = d, message_id = i\<rparr>"
    unfolding NotificationMessage_init_def assert_that_Inr bind_exc_Inr
      isinstance_str_iff isinstance_list_iff
    by (auto simp: the_simps encode_def)
  have "map VStr (map the_str xs) = xs"
    using xs by (induction xs) (auto simp: isinstance_str_iff the_simps)
  with v ib m show ?thesis by simp
qed

text \<open>
  Claim C10. The parameters \<open>summary\<close>, \<open>description\<close> and \<open>id\<close> of
  \<open>NotificationMessage\<close> default to the empty string, which meets every check on them:
  for every list of strings, the construction with the recipients alone succeeds and the
  three attributes of the result are empty strings.
\<close>

theorem NotificationMessage_defaults:
  "NotificationMessage_new (VList (map VStr rs)) None None None =
     Inr \<lparr>recipients = rs, summary = str_lit '''', description = str_lit '''',
          message_id = str_lit ''''\<rparr>"
  by (simp add: NotificationMessage_new_def str_lit_def
      NotificationMessage_init_ok [of "[]" "[]" "[]" "[]"]
      NOTIFICATION_MESSAGE_SUMMARY_RE_fullmatch_def)

text \<open>
  Claim C6, at the inputs where the code departs from it. With valid recipients, summary
  and description, an \<open>id\<close> argument that is an integer, \<open>None\<close> or a bytes object
  makes the constructor raise \<open>AttributeError\<close> from \<open>id.encode()\<close>: the assertion that
  the argument is a string stands one statement later and is not reached. A description that
  is no string fails the assertion written for it.
\<close>

theorem NotificationMessage_init_nonstr_id:
  "NotificationMessage_init (VList []) (VStr (str_lit '''')) (VStr (str_lit '''')) (VInt 5)
     = Inl AttributeError
   \<and> NotificationMessage_init (VList []) (VStr (str_lit '''')) (VStr (str_lit '''')) VNone
     = Inl AttributeError
   \<and> NotificationMessage_init (VList []) (VStr (str_lit '''')) (VStr (str_lit ''''))
       (VBytes (str_lit ''abc'')) = Inl AttributeError
   \<and> NotificationMessage_init (VList []) (VStr (str_lit '''')) (VInt 5) (VStr (str_lit ''''))
     = Inl AssertionError"
  by (simp add: NotificationMessage_init_def assert_that_def bind_exc_def encode_def
      isinstance_str_def isinstance_list_def the_str_def the_list_def str_lit_def
      NOTIFICATION_MESSAGE_SUMMARY_RE_fullmatch_def)

lemma summary_control_rejected:
  assumes "\<exists>c\<in>set s. c \<le> 0x1f \<or> c = 0x7f"
  shows "NotificationMessage_init (VList (map VStr rs)) (VStr s) dv iv = Inl AssertionError"
proof -
  from assms have "\<not> NOTIFICATION_MESSAGE_SUMMARY_RE_fullmatch s"
    by (auto simp: NOTIFICATION_MESSAGE_SUMMARY_RE_fullmatch_def list_all_iff)
  then show ?thesis
    by (simp add: NotificationMessage_init_def assert_that_def the_simps isinstance_simps
        list_all_isinstance_str_map)
qed

lemma summary_too_long_rejected:
  assumes "str_encode s = Inr sb" and "256 < length sb"
  shows "NotificationMessage_init (VList (map VStr rs)) (VStr s) dv iv = Inl AssertionError"
  using assms
  by (simp add: NotificationMessage_init_def assert_that_def bind_exc_def encode_def the_simps
      isinstance_simps list_all_isinstance_str_map)

lemma printable_ascii_summary:
  assumes "list_all (\<lambda>c. 0x20 \<le> c \<and> c \<le> 0x7e) s"
  shows "NOTIFICATION_MESSAGE_SUMMARY_RE_fullmatch s \<and> str_encode s = Inr s"
proof -
  have "list_all (\<lambda>c. c < 128) s" using assms by (induction s) auto
  moreover have "NOTIFICATION_MESSAGE_SUMMARY_RE_fullmatch s"
    using assms unfolding NOTIFICATION_MESSAGE_SUMMARY_RE_fullmatch_def
    by (induction s) auto
  ultimately show ?thesis by (simp add: str_encode_ascii)
qed

text \<open>
  Claim C8. With the other arguments valid, a summary that holds a control character
  (U+0000 to U+001F, or U+007F) fails the construction, a summary of exactly 256 printable
  ASCII characters succeeds, and a summary whose UTF-8 encoding has 257 bytes fails.
\<close>

theorem summary_rejection_boundary:
  "((\<exists>c\<in>set s1. c \<le> 0x1f \<or> c = 0x7f) \<longrightarrow>
      NotificationMessage_init (VList (map VStr rs)) (VStr s1) dv iv = Inl AssertionError)
   \<and> (list_all (\<lambda>c. 0x20 \<le> c \<and> c \<le> 0x7e) s2 \<and> length s2 = 256
        \<and> str_encode i = Inr ib \<and> length ib \<le> 256 \<longrightarrow>
      NotificationMessage_init (VList (map VStr rs)) (VStr s2) (VStr d) (VStr i) =
        Inr \<lparr>recipients = rs, summary = s2, description = d, message_id = i\<rparr>)
   \<and> (str_encode s3 = Inr sb \<and> length sb = 257 \<longrightarrow>
      NotificationMessage_init (VList (map VStr rs)) (VStr s3) dv iv = Inl AssertionError)"
proof (intro conjI impI)
  assume "\<exists>c\<in>set s1. c \<le> 0x1f \<or> c = 0x7f"
  then show "NotificationMessage_init (VList (map VStr rs)) (VStr s1) dv iv = Inl AssertionError"
    by (rule summary_control_rejected)
next
  assume a: "list_all (\<lambda>c. 0x20 \<le> c \<and> c \<le> 0x7e) s2 \<and> length s2 = 256
        \<and> str_encode i = Inr ib \<and> length ib \<le> 256"
  then have p: "NOTIFICATION_MESSAGE_SUMMARY_RE_fullmatch s2" "str_encode s2 = Inr s2"
    using printable_ascii_summary by blast+
  from a have "length s2 \<le> 256" by simp
  with p a show "NotificationMessage_init (VList (map VStr rs)) (VStr s2) (VStr d) (VStr i) =
        Inr \<lparr>recipients = rs, summary = s2, description = d, message_id = i\<rparr>"
    by (intro NotificationMessage_init_ok) auto
next
  assume "str_encode s3 = Inr sb \<and> length sb = 257"
  then show "NotificationMessage_init (VList (map VStr rs)) (VStr s3) dv iv = Inl AssertionError"
    by (intro summary_too_long_rejected [of s3 sb]) auto
qed

theorem summary_rejection_boundary_witness:
  "(\<exists>c\<in>set (str_lit [CHR 0x01, CHR ''b'', CHR ''a'', CHR ''d'']). c \<le> 0x1f \<or> c = 0x7f)
   \<and> NotificationMessage_init (VList [VStr (str_lit ''a@b.org'')])
        (VStr (str_lit [CHR 0x01, CHR ''b'', CHR ''a'', CHR ''d''])) (VStr (str_lit ''text''))
        (VStr (str_lit ''daily'')) = Inl AssertionError
   \<and> list_all (\<lambda>c. 0x20 \<le> c \<and> c \<le> 0x7e) (replicate 256 (97::nat)) \<and> length (replicate 256 (97::nat)) = 256
   \<and> str_encode (str_lit ''daily'') = Inr (str_lit ''daily'')
   \<and> length (str_lit ''daily'') \<le> 256
   \<and> NotificationMessage_init (VList [VStr (str_lit ''a@b.org'')]) (VStr (replicate 256 97))
        (VStr (str_lit ''text'')) (VStr (str_lit ''daily'')) =
        Inr \<lparr>recipients = [str_lit ''a@b.org''], summary = replicate 256 97,
             description = str_lit ''text'', message_id = str_lit ''daily''\<rparr>
   \<and> str_encode (replicate 257 97) = Inr (replicate 257 97) \<and> length (replicate 257 (97::nat)) = 257
   \<and> NotificationMessage_init (VList [VStr (str_lit ''a@b.org'')]) (VStr (replicate 257 97))
        (VStr (str_lit ''text'')) (VStr (str_lit ''daily'')) = Inl AssertionError"
proof -
  have h1: "\<exists>c\<in>set (str_lit [CHR 0x01, CHR ''b'', CHR ''a'', CHR ''d'']). c \<le> 0x1f \<or> c = 0x7f"
    by (simp add: str_lit_def)
  have h2: "list_all (\<lambda>c. 0x20 \<le> c \<and> c \<le> 0x7e) (replicate 256 (97::nat)) \<and> length (replicate 256 (97::nat)) = 256
        \<and> str_encode (str_lit ''daily'') = Inr (str_lit ''daily'') \<and> length (str_lit ''daily'') \<le> 256"
    by (simp add: list_all_iff str_lit_def utf8_encode_char_def bind_exc_def)
  have h3: "str_encode (replicate 257 97) = Inr (replicate 257 97) \<and> length (replicate 257 (97::nat)) = 257"
    by (simp add: str_encode_ascii list_all_iff)
  note t = summary_rejection_boundary [of "str_lit [CHR 0x01, CHR ''b'', CHR ''a'', CHR ''d'']"
      "[str_lit ''a@b.org'']" "VStr (str_lit ''text'')" "VStr (str_lit ''daily'')"
      "replicate 256 97" "str_lit ''daily''" "str_lit ''daily''" "str_lit ''text''"
      "replicate 257 97" "replicate 257 97"]
  from t h1 have r1: "NotificationMessage_init (VList [VStr (str_lit ''a@b.org'')])
        (VStr (str_lit [CHR 0x01, CHR ''b'', CHR ''a'', CHR ''d''])) (VStr (str_lit ''text''))
        (VStr (str_lit ''daily'')) = Inl AssertionError" by simp
  from t h2 have r2: "NotificationMessage_init (VList [VStr (str_lit ''a@b.org'')]) (VStr (replicate 256 97))
        (VStr (str_lit ''text'')) (VStr (str_lit ''daily'')) =
        Inr \<lparr>recipients = [str_lit ''a@b.org''], summary = replicate 256 97,
             description = str_lit ''text'', message_id = str_lit ''daily''\<rparr>" by simp
  from t h3 have r3: "NotificationMessage_init (VList [VStr (str_lit ''a@b.org'')]) (VStr (replicate 257 97))
        (VStr (str_lit ''text'')) (VStr (str_lit ''daily'')) = Inl AssertionError" by simp
  from h1 h2 h3 r1 r2 r3 show ?thesis by blast
qed

subsection \<open>Constructing a notification\<close>

lemma str_lit_colon: "str_lit '':'' = [58]"
  by (simp add: str_lit_def)

lemma SUBSCRIPTION_RE_chars:
  "SUBSCRIPTION_RE_fullmatch s \<Longrightarrow> list_all (\<lambda>c. is_alnum c \<or> c = 95) s"
  by (cases s) (auto simp: SUBSCRIPTION_RE_fullmatch_def)

lemma SUBSCRIPTION_RE_hd: "SUBSCRIPTION_RE_fullmatch s \<Longrightarrow> s \<noteq> [] \<Longrightarrow> hd s \<noteq> 95"
  by (cases s) (auto simp: SUBSCRIPTION_RE_fullmatch_def is_alnum_def)

lemma subscription_char_facts: "is_alnum c \<or> c = 95 \<Longrightarrow> c < 128 \<and> c \<noteq> 47 \<and> c \<noteq> 58"
  by (auto simp: is_alnum_def)

lemma SUBSCRIPTION_RE_plain:
  assumes "SUBSCRIPTION_RE_fullmatch s"
  shows "list_all (\<lambda>c. c < 128) s" and "47 \<notin> set s" and "58 \<notin> set s"
  using SUBSCRIPTION_RE_chars [OF assms] subscription_char_facts
  by (auto simp: list_all_iff)

lemma b64encode_chars:
  "list_all (\<lambda>c. c < 128 \<and> c \<noteq> 47 \<and> c \<noteq> 58) (b64encode b (str_lit ''+-''))"
proof -
  have "list_all (\<lambda>c. c < 128 \<and> c \<noteq> 47 \<and> c \<noteq> 58) (map (\<lambda>c. if c = 47 then 45 else c) s)"
    if "list_all (\<lambda>c. is_b64_char c \<or> c = 61) s" for s
    using that by (induction s) (auto dest: is_b64_char_facts)
  then show ?thesis
    by (simp only: b64encode_def translate_encode b2a_base64_chars)
qed

lemma b64encode_plain:
  shows "47 \<notin> set (b64encode b (str_lit ''+-''))" and "58 \<notin> set (b64encode b (str_lit ''+-''))"
  using b64encode_chars [of b] by (auto simp: list_all_iff)

lemma length_b64encode:
  "length (b64encode b (str_lit ''+-'')) = 4 * ((length b + 2) div 3)"
  by (simp add: b64encode_def translate_def length_b2a_base64)

lemma str_encode_append_Inr:
  "str_encode a = Inr a' \<Longrightarrow> str_encode b = Inr b' \<Longrightarrow> str_encode (a @ b) = Inr (a' @ b')"
  by (simp add: str_encode_append bind_exc_def)

lemma str_encode_colon_Inr: "str_encode b = Inr b' \<Longrightarrow> str_encode (58 # b) = Inr (58 # b')"
  by (simp add: utf8_encode_char_def bind_exc_def)

lemma composite_id_encode:
  assumes "SUBSCRIPTION_RE_fullmatch s" and "str_encode ol = Inr ob"
  shows "str_encode (s @ 58 # ol @ 58 # b64encode nb (str_lit ''+-'') @ 58
                      # b64encode mb (str_lit ''+-''))
         = Inr (s @ 58 # ob @ 58 # b64encode nb (str_lit ''+-'') @ 58
                  # b64encode mb (str_lit ''+-''))"
proof -
  have s: "str_encode s = Inr s"
    by (rule str_encode_ascii) (rule SUBSCRIPTION_RE_plain [OF assms(1)])
  have p: "str_encode (b64encode b (str_lit ''+-'')) = Inr (b64encode b (str_lit ''+-''))" for b
    by (rule str_encode_ascii) (rule b64encode_ascii)
  show ?thesis
    by (intro str_encode_append_Inr str_encode_colon_Inr s p assms(2))
qed

lemma not_startswith_underscores:
  assumes "SUBSCRIPTION_RE_fullmatch s"
  shows "\<not> startswith (s @ 58 # r) (str_lit ''__'')"
proof (cases s)
  case Nil
  then show ?thesis by (simp add: startswith_def str_lit_def)
next
  case (Cons c cs)
  with SUBSCRIPTION_RE_hd [OF assms] have "c \<noteq> 95" by simp
  with Cons show ?thesis by (simp add: startswith_def str_lit_def)
qed

lemma composite_id_valid:
  assumes sub: "SUBSCRIPTION_RE_fullmatch s"
    and ol: "str_encode ol = Inr ob" "47 \<notin> set ol"
    and len: "length s + length ob + 4 * ((length nb + 2) div 3)
              + 4 * ((length mb + 2) div 3) + 3 \<le> 1500"
  shows "is_valid_firestore_id
           (VStr (s @ str_lit '':'' @ ol @ str_lit '':'' @ b64encode nb (str_lit ''+-'')
                  @ str_lit '':'' @ b64encode mb (str_lit ''+-''))) = Inr True"
proof -
  let ?id = "s @ 58 # ol @ 58 # b64encode nb (str_lit ''+-'') @ 58 # b64encode mb (str_lit ''+-'')"
  have enc: "str_encode ?id = Inr (s @ 58 # ob @ 58 # b64encode nb (str_lit ''+-'') @ 58
                  # b64encode mb (str_lit ''+-''))"
    by (rule composite_id_encode [OF sub ol(1)])
  have l: "length (s @ 58 # ob @ 58 # b64encode nb (str_lit ''+-'') @ 58
                  # b64encode mb (str_lit ''+-'')) \<le> 1500"
    using len by (simp add: length_b64encode)
  have colon: "58 \<in> set ?id" by simp
  have dot: "?id \<noteq> str_lit ''.''" "?id \<noteq> str_lit ''..''"
    using colon by (auto simp: str_lit_def simp del: set_append)
  have slash: "47 \<notin> set ?id"
    using SUBSCRIPTION_RE_plain(2) [OF sub] ol(2) b64encode_plain(1) by simp
  have st: "\<not> startswith ?id (str_lit ''__'')"
    by (rule not_startswith_underscores [OF sub])
  show ?thesis
    unfolding str_lit_colon append_Cons append_Nil
    using enc l dot slash st by (simp add: is_valid_firestore_id_eq)
qed

lemma Notification_init_ok:
  assumes "tree ol \<noteq> None" and "ol \<noteq> []"
    and "SUBSCRIPTION_RE_fullmatch s" and "length s \<le> 64"
    and "str_encode (node_id nd) = Inr nb" and "str_encode (message_id m) = Inr mb"
    and "is_valid_firestore_id
           (VStr (s @ str_lit '':'' @ ol @ str_lit '':'' @ b64encode nb (str_lit ''+-'')
                  @ str_lit '':'' @ b64encode mb (str_lit ''+-''))) = Inr True"
  shows "Notification_init tree (VStr ol) (VNode nd) (VStr s) (VMessage m) =
         Inr \<lparr>obj_list_name = ol, obj = nd, subscription = s, message = m,
              notification_id =
                s @ str_lit '':'' @ ol @ str_lit '':'' @ b64encode nb (str_lit ''+-'')
                @ str_lit '':'' @ b64encode mb (str_lit ''+-'')\<rparr>"
proof -
  have s: "str_encode s = Inr s"
    by (rule str_encode_ascii) (rule SUBSCRIPTION_RE_plain [OF assms(3)])
  show ?thesis
    using assms s
    by (simp add: Notification_init_def assert_that_def bind_exc_def encode_def the_simps
        isinstance_simps to_id_part_eq)
qed

lemma Notification_init_Inr:
  assumes "Notification_init tree ov nv sv mv = Inr n"
  shows "\<exists>nb mb. ov = VStr (obj_list_name n) \<and> nv = VNode (obj n)
           \<and> sv = VStr (subscription n) \<and> mv = VMessage (message n)
           \<and> obj_list_name n \<noteq> [] \<and> tree (obj_list_name n) \<noteq> None
           \<and> SUBSCRIPTION_RE_fullmatch (subscription n) \<and> length (subscription n) \<le> 64
           \<and> str_encode (node_id (obj n)) = Inr nb
           \<and> str_encode (message_id (message n)) = Inr mb
           \<and> notification_id n =
               subscription n @ str_lit '':'' @ obj_list_name n @ str_lit '':''
               @ b64encode nb (str_lit ''+-'') @ str_lit '':'' @ b64encode mb (str_lit ''+-'')
           \<and> is_valid_firestore_id (VStr (notification_id n)) = Inr True"
proof -
  from assms obtain ol nd s m sb p1 p2 where
    v: "ov = VStr ol" "nv = VNode nd" "sv = VStr s" "mv = VMessage m"
    and c: "ol \<noteq> []" "tree ol \<noteq> None" "SUBSCRIPTION_RE_fullmatch s"
      "str_encode s = Inr sb" "length sb \<le> 64"
    and p: "to_id_part (node_id nd) = Inr p1" "to_id_part (message_id m) = Inr p2"
    and ok: "is_valid_firestore_id
               (VStr (s @ str_lit '':'' @ ol @ str_lit '':'' @ p1 @ str_lit '':'' @ p2)) = Inr True"
    and n: "n = \<lparr>obj_list_name = ol, obj = nd, subscription = s, message = m,
              notification_id = s @ str_lit '':'' @ ol @ str_lit '':'' @ p1 @ str_lit '':'' @ p2\<rparr>"
    unfolding Notification_init_def assert_that_Inr bind_exc_Inr
      isinstance_str_iff isinstance_Node_iff isinstance_NotificationMessage_iff
    by (auto simp: the_simps encode_def)
  from p obtain nb mb where
    b: "str_encode (node_id nd) = Inr nb" "p1 = b64encode nb (str_lit ''+-'')"
      "str_encode (message_id m) = Inr mb" "p2 = b64encode mb (str_lit ''+-'')"
    using to_id_part_Inr by blast
  have "str_encode s = Inr s"
    by (rule str_encode_ascii) (rule SUBSCRIPTION_RE_plain [OF c(3)])
  with c have "length s \<le> 64" by simp
  with v c b ok n show ?thesis by simp
qed

lemma composite_id_too_long:
  assumes sub: "SUBSCRIPTION_RE_fullmatch s"
    and ol: "str_encode ol = Inr ob"
    and len: "1500 < length s + length ob + 4 * ((length nb + 2) div 3)
              + 4 * ((length mb + 2) div 3) + 3"
  shows "is_valid_firestore_id
           (VStr (s @ str_lit '':'' @ ol @ str_lit '':'' @ b64encode nb (str_lit ''+-'')
                  @ str_lit '':'' @ b64encode mb (str_lit ''+-''))) = Inr False"
proof -
  have l: "\<not> length (s @ 58 # ob @ 58 # b64encode nb (str_lit ''+-'') @ 58
                  # b64encode mb (str_lit ''+-'')) \<le> 1500"
    using len by (simp add: length_b64encode)
  show ?thesis
    unfolding str_lit_colon append_Cons append_Nil
    using composite_id_encode [OF sub ol, of nb mb] l by (simp add: is_valid_firestore_id_eq)
qed

lemma Notification_init_too_long:
  assumes "tree ol \<noteq> None" and "ol \<noteq> []"
    and "SUBSCRIPTION_RE_fullmatch s" and "length s \<le> 64"
    and "str_encode (node_id nd) = Inr nb" and "str_encode (message_id m) = Inr mb"
    and "str_encode ol = Inr ob"
    and "1500 < length s + length ob + 4 * ((length nb + 2) div 3)
              + 4 * ((length mb + 2) div 3) + 3"
  shows "Notification_init tree (VStr ol) (VNode nd) (VStr s) (VMessage m) = Inl AssertionError"
proof -
  have s: "str_encode s = Inr s"
    by (rule str_encode_ascii) (rule SUBSCRIPTION_RE_plain [OF assms(3)])
  show ?thesis
    using assms(1-6) s composite_id_too_long [OF assms(3) assms(7) assms(8)]
    by (simp add: Notification_init_def assert_that_def bind_exc_def encode_def the_simps
        isinstance_simps to_id_part_eq)
qed

text \<open>
  Claim C1, as stated, fails. The arguments below pass every precondition the claim lists
  (a valid message, a known collection name, the empty subscription), yet the identifier
  of the object has 1200 bytes, its encoded part 1600, and the final assertion of the
  constructor fails.
\<close>

theorem notification_id_invalid_counterexample:
  "NotificationMessage_init (VList []) (VStr (str_lit '''')) (VStr (str_lit ''''))
       (VStr (str_lit '''')) =
     Inr \<lparr>recipients = [], summary = [], description = [], message_id = []\<rparr>
   \<and> SUBSCRIPTION_RE_fullmatch (str_lit '''')
   \<and> length (str_lit '''') \<le> 64
   \<and> [str_lit ''builds'' \<mapsto> [str_lit ''tests'']] (str_lit ''builds'') \<noteq> None
   \<and> Notification_init [str_lit ''builds'' \<mapsto> [str_lit ''tests'']] (VStr (str_lit ''builds''))
       (VNode \<lparr>node_id = replicate 1200 97, summarize = [], describe = []\<rparr>)
       (VStr (str_lit ''''))
       (VMessage \<lparr>recipients = [], summary = [], description = [], message_id = []\<rparr>)
     = Inl AssertionError"
proof -
  have m: "NotificationMessage_init (VList []) (VStr (str_lit '''')) (VStr (str_lit ''''))
       (VStr (str_lit '''')) =
     Inr \<lparr>recipients = [], summary = [], description = [], message_id = []\<rparr>"
    using NotificationMessage_init_ok [of "[]" "[]" "[]" "[]" "[]" "[]"]
    by (simp add: str_lit_def NOTIFICATION_MESSAGE_SUMMARY_RE_fullmatch_def)
  have s: "SUBSCRIPTION_RE_fullmatch (str_lit '''')"
    by (simp add: SUBSCRIPTION_RE_fullmatch_def str_lit_def)
  have e: "str_encode (replicate 1200 97) = Inr (replicate 1200 97)"
    by (rule str_encode_ascii) (simp add: list_all_iff)
  have o: "str_encode (str_lit ''builds'') = Inr (str_lit ''builds'')"
    by (rule str_encode_ascii) (simp add: str_lit_def)
  have "Notification_init [str_lit ''builds'' \<mapsto> [str_lit ''tests'']] (VStr (str_lit ''builds''))
       (VNode \<lparr>node_id = replicate 1200 97, summarize = [], describe = []\<rparr>)
       (VStr (str_lit ''''))
       (VMessage \<lparr>recipients = [], summary = [], description = [], message_id = []\<rparr>)
     = Inl AssertionError"
    by (rule Notification_init_too_long [where nb = "replicate 1200 97" and mb = "[]"
          and ob = "str_lit ''builds''"])
       (simp_all add: s e o, simp_all add: str_lit_def)
  with m s show ?thesis by (simp add: str_lit_def)
qed

text \<open>
  Claim C1, amended. Let the arguments meet the preconditions of the claim, let the
  object's identifier and the collection name have UTF-8 encodings, let the collection name
  hold no \<open>/\<close>, and let the bytes of the collection name plus the length of the encoded
  object identifier, four times a third of its bytes rounded up, be at most 1089. Then the
  construction succeeds, the identifier is the subscription, the collection name and the two
  encoded parts joined by colons, and it satisfies \<open>is_valid_firestore_id\<close>.
\<close>

theorem notification_id_valid_when_bounded:
  assumes "NotificationMessage_init rv sv dv iv = Inr m"
    and "tree ol \<noteq> None" and "ol \<noteq> []"
    and "str_encode ol = Inr ob" and "47 \<notin> set ol"
    and "SUBSCRIPTION_RE_fullmatch s" and "length s \<le> 64"
    and "str_encode (node_id nd) = Inr nb"
    and "length ob + 4 * ((length nb + 2) div 3) \<le> 1089"
  shows "\<exists>n p1 p2. Notification_init tree (VStr ol) (VNode nd) (VStr s) (VMessage m) = Inr n
           \<and> to_id_part (node_id nd) = Inr p1 \<and> to_id_part (message_id m) = Inr p2
           \<and> notification_id n = s @ str_lit '':'' @ ol @ str_lit '':'' @ p1 @ str_lit '':'' @ p2
           \<and> is_valid_firestore_id (VStr (notification_id n)) = Inr True"
proof -
  from NotificationMessage_init_Inr [OF assms(1)] obtain mb where
    mb: "str_encode (message_id m) = Inr mb" "length mb \<le> 256"
    by blast
  have "(length mb + 2) div 3 \<le> 86" using mb(2) by simp
  with assms(7,9) have len: "length s + length ob + 4 * ((length nb + 2) div 3)
              + 4 * ((length mb + 2) div 3) + 3 \<le> 1500"
    by simp
  have ok: "is_valid_firestore_id
           (VStr (s @ str_lit '':'' @ ol @ str_lit '':'' @ b64encode nb (str_lit ''+-'')
                  @ str_lit '':'' @ b64encode mb (str_lit ''+-''))) = Inr True"
    by (rule composite_id_valid [OF assms(6) assms(4) assms(5) len])
  from Notification_init_ok [where tree = tree and ol = ol, OF assms(2) assms(3) assms(6) assms(7) assms(8) mb(1) ok]
  show ?thesis
    using ok by (simp add: to_id_part_eq [OF assms(8)] to_id_part_eq [OF mb(1)])
qed

lemma example_message:
  "NotificationMessage_init (VList [VStr (str_lit ''a@b.org'')]) (VStr (str_lit ''Build failed: ''))
       (VStr (str_lit ''Details: '')) (VStr (str_lit ''daily'')) =
     Inr \<lparr>recipients = [str_lit ''a@b.org''], summary = str_lit ''Build failed: '',
          description = str_lit ''Details: '', message_id = str_lit ''daily''\<rparr>"
proof -
  have a: "list_all (\<lambda>c. c < 128) (str_lit ''Build failed: '')"
    "list_all (\<lambda>c. c < 128) (str_lit ''daily'')"
    by (simp_all add: str_lit_def)
  show ?thesis
    using NotificationMessage_init_ok [of "str_lit ''Build failed: ''" "str_lit ''Build failed: ''"
        "str_lit ''daily''" "str_lit ''daily''" "[str_lit ''a@b.org'']" "str_lit ''Details: ''"]
    by (simp add: str_encode_ascii [OF a(1)] str_encode_ascii [OF a(2)])
       (simp add: NOTIFICATION_MESSAGE_SUMMARY_RE_fullmatch_def str_lit_def)
qed

lemma example_parts:
  "to_id_part (str_lit ''build:42'') = Inr (str_lit ''YnVpbGQ6NDI='')"
  "to_id_part (str_lit ''daily'') = Inr (str_lit ''ZGFpbHk='')"
proof -
  have a: "str_encode (str_lit ''build:42'') = Inr (str_lit ''build:42'')"
    "str_encode (str_lit ''daily'') = Inr (str_lit ''daily'')"
    by (rule str_encode_ascii, simp add: str_lit_def)+
  show "to_id_part (str_lit ''build:42'') = Inr (str_lit ''YnVpbGQ6NDI='')"
    unfolding to_id_part_eq [OF a(1)]
    by (simp add: b64encode_def translate_def maketrans_def table_b2a_base64_def str_lit_def)
  show "to_id_part (str_lit ''daily'') = Inr (str_lit ''ZGFpbHk='')"
    unfolding to_id_part_eq [OF a(2)]
    by (simp add: b64encode_def translate_def maketrans_def table_b2a_base64_def str_lit_def)
qed

theorem notification_id_valid_when_bounded_witness:
  "NotificationMessage_init (VList [VStr (str_lit ''a@b.org'')]) (VStr (str_lit ''Build failed: ''))
       (VStr (str_lit ''Details: '')) (VStr (str_lit ''daily'')) =
     Inr \<lparr>recipients = [str_lit ''a@b.org''], summary = str_lit ''Build failed: '',
          description = str_lit ''Details: '', message_id = str_lit ''daily''\<rparr>
   \<and> [str_lit ''builds'' \<mapsto> [str_lit ''tests'']] (str_lit ''builds'') \<noteq> None
   \<and> str_lit ''builds'' \<noteq> []
   \<and> str_encode (str_lit ''builds'') = Inr (str_lit ''builds'')
   \<and> 47 \<notin> set (str_lit ''builds'')
   \<and> SUBSCRIPTION_RE_fullmatch (str_lit ''build_fail'')
   \<and> length (str_lit ''build_fail'') \<le> 64
   \<and> str_encode (str_lit ''build:42'') = Inr (str_lit ''build:42'')
   \<and> length (str_lit ''builds'') + 4 * ((length (str_lit ''build:42'') + 2) div 3) \<le> 1089
   \<and> (\<exists>n. Notification_init [str_lit ''builds'' \<mapsto> [str_lit ''tests'']]
          (VStr (str_lit ''builds''))
          (VNode \<lparr>node_id = str_lit ''build:42'', summarize = str_lit ''build 42'',
                   describe = str_lit ''Build 42 failed.''\<rparr>)
          (VStr (str_lit ''build_fail''))
          (VMessage \<lparr>recipients = [str_lit ''a@b.org''], summary = str_lit ''Build failed: '',
             description = str_lit ''Details: '', message_id = str_lit ''daily''\<rparr>) = Inr n
        \<and> notification_id n = str_lit ''build_fail:builds:YnVpbGQ6NDI=:ZGFpbHk='')
   \<and> is_valid_firestore_id (VStr (str_lit ''build_fail:builds:YnVpbGQ6NDI=:ZGFpbHk='')) = Inr True"
proof -
  have h1: "[str_lit ''builds'' \<mapsto> [str_lit ''tests'']] (str_lit ''builds'') \<noteq> None"
    and h2: "str_lit ''builds'' \<noteq> []"
    and h4: "47 \<notin> set (str_lit ''builds'')"
    and h5: "SUBSCRIPTION_RE_fullmatch (str_lit ''build_fail'')"
    and h6: "length (str_lit ''build_fail'') \<le> 64"
    and h8: "length (str_lit ''builds'') + 4 * ((length (str_lit ''build:42'') + 2) div 3) \<le> 1089"
    by (simp_all add: str_lit_def SUBSCRIPTION_RE_fullmatch_def is_alnum_def)
  have h3: "str_encode (str_lit ''builds'') = Inr (str_lit ''builds'')"
    and h7: "str_encode (str_lit ''build:42'') = Inr (str_lit ''build:42'')"
    by (rule str_encode_ascii, simp add: str_lit_def)+
  have h7': "str_encode (node_id \<lparr>node_id = str_lit ''build:42'', summarize = str_lit ''build 42'',
                   describe = str_lit ''Build 42 failed.''\<rparr>) = Inr (str_lit ''build:42'')"
    using h7 by simp
  have h8': "length (str_lit ''builds'') + 4 * ((length (str_lit ''build:42'') + 2) div 3) \<le> 1089"
    by (rule h8)
  from notification_id_valid_when_bounded [where tree = "[str_lit ''builds'' \<mapsto> [str_lit ''tests'']]"
      and ol = "str_lit ''builds''"
      and nd = "\<lparr>node_id = str_lit ''build:42'', summarize = str_lit ''build 42'',
                   describe = str_lit ''Build 42 failed.''\<rparr>",
      OF example_message h1 h2 h3 h4 h5 h6 h7' h8']
  obtain n where n: "Notification_init [str_lit ''builds'' \<mapsto> [str_lit ''tests'']]
          (VStr (str_lit ''builds''))
          (VNode \<lparr>node_id = str_lit ''build:42'', summarize = str_lit ''build 42'',
                   describe = str_lit ''Build 42 failed.''\<rparr>)
          (VStr (str_lit ''build_fail''))
          (VMessage \<lparr>recipients = [str_lit ''a@b.org''], summary = str_lit ''Build failed: '',
             description = str_lit ''Details: '', message_id = str_lit ''daily''\<rparr>) = Inr n"
    and i: "notification_id n = str_lit ''build_fail'' @ str_lit '':'' @ str_lit ''builds''
              @ str_lit '':'' @ str_lit ''YnVpbGQ6NDI='' @ str_lit '':'' @ str_lit ''ZGFpbHk=''"
    and v: "is_valid_firestore_id (VStr (notification_id n)) = Inr True"
    by (auto simp: example_parts)
  have c: "str_lit ''build_fail'' @ str_lit '':'' @ str_lit ''builds''
              @ str_lit '':'' @ str_lit ''YnVpbGQ6NDI='' @ str_lit '':'' @ str_lit ''ZGFpbHk=''
           = str_lit ''build_fail:builds:YnVpbGQ6NDI=:ZGFpbHk=''"
    by (simp add: str_lit_def)
  from n i v have "(\<exists>n. Notification_init [str_lit ''builds'' \<mapsto> [str_lit ''tests'']]
          (VStr (str_lit ''builds''))
          (VNode \<lparr>node_id = str_lit ''build:42'', summarize = str_lit ''build 42'',
                   describe = str_lit ''Build 42 failed.''\<rparr>)
          (VStr (str_lit ''build_fail''))
          (VMessage \<lparr>recipients = [str_lit ''a@b.org''], summary = str_lit ''Build failed: '',
             description = str_lit ''Details: '', message_id = str_lit ''daily''\<rparr>) = Inr n
        \<and> notification_id n = str_lit ''build_fail:builds:YnVpbGQ6NDI=:ZGFpbHk='')"
    and "is_valid_firestore_id (VStr (str_lit ''build_fail:builds:YnVpbGQ6NDI=:ZGFpbHk='')) = Inr True"
    unfolding c by auto
  with example_message h1 h2 h3 h4 h5 h6 h7 h8 show ?thesis by blast
qed

subsection \<open>The identifier as a key\<close>

lemma split_at_first_colon:
  assumes "(58::nat) \<notin> set a" and "58 \<notin> set a'" and "a @ 58 # r = a' @ 58 # r'"
  shows "a = a' \<and> r = r'"
  using assms
proof (induction a arbitrary: a')
  case Nil
  then show ?case by (cases a') auto
next
  case (Cons x xs)
  then show ?case by (cases a') auto
qed

lemma split_at_last_colon:
  assumes "(58::nat) \<notin> set q" and "58 \<notin> set q'" and "r @ 58 # q = r' @ 58 # q'"
  shows "r = r' \<and> q = q'"
proof -
  from assms(3) have "rev (r @ 58 # q) = rev (r' @ 58 # q')" by (rule arg_cong)
  then have e: "rev q @ 58 # rev r = rev q' @ 58 # rev r'" by simp
  have n: "58 \<notin> set (rev q)" "58 \<notin> set (rev q')" using assms(1,2) by simp_all
  from split_at_first_colon [OF n e] show ?thesis by simp
qed

lemma b64encode_inj:
  assumes "list_all (\<lambda>b. b < 256) a" and "list_all (\<lambda>b. b < 256) b"
    and "b64encode a (str_lit ''+-'') = b64encode b (str_lit ''+-'')"
  shows "a = b"
proof -
  have "Inr a = b64decode (b64encode a (str_lit ''+-'')) (str_lit ''+-'') True"
    by (rule b64decode_b64encode [OF assms(1), symmetric])
  also have "\<dots> = b64decode (b64encode b (str_lit ''+-'')) (str_lit ''+-'') True"
    by (simp only: assms(3))
  also have "\<dots> = Inr b"
    by (rule b64decode_b64encode [OF assms(2)])
  finally show ?thesis by (simp only: sum.inject)
qed

lemma to_id_part_inj:
  assumes "str_encode s = Inr a" and "str_encode t = Inr b"
    and "b64encode a (str_lit ''+-'') = b64encode b (str_lit ''+-'')"
  shows "s = t"
proof -
  have ab: "a = b"
    by (rule b64encode_inj [OF str_encode_bytes [OF assms(1)] str_encode_bytes [OF assms(2)]
          assms(3)])
  have "Inr s = bytes_decode a" by (rule bytes_decode_str_encode [OF assms(1), symmetric])
  also have "\<dots> = Inr t" unfolding ab by (rule bytes_decode_str_encode [OF assms(2)])
  finally show ?thesis by (simp only: sum.inject)
qed

lemma composite_id_inj:
  assumes "SUBSCRIPTION_RE_fullmatch s1" and "SUBSCRIPTION_RE_fullmatch s2"
    and "s1 @ str_lit '':'' @ o1 @ str_lit '':'' @ b64encode a1 (str_lit ''+-'') @ str_lit '':''
           @ b64encode b1 (str_lit ''+-'')
         = s2 @ str_lit '':'' @ o2 @ str_lit '':'' @ b64encode a2 (str_lit ''+-'') @ str_lit '':''
           @ b64encode b2 (str_lit ''+-'')"
  shows "s1 = s2 \<and> o1 = o2
         \<and> b64encode a1 (str_lit ''+-'') = b64encode a2 (str_lit ''+-'')
         \<and> b64encode b1 (str_lit ''+-'') = b64encode b2 (str_lit ''+-'')"
proof -
  let ?p1 = "b64encode a1 (str_lit ''+-'')" and ?p2 = "b64encode a2 (str_lit ''+-'')"
  let ?q1 = "b64encode b1 (str_lit ''+-'')" and ?q2 = "b64encode b2 (str_lit ''+-'')"
  from assms(3) have e: "s1 @ 58 # (o1 @ 58 # ?p1 @ 58 # ?q1) = s2 @ 58 # (o2 @ 58 # ?p2 @ 58 # ?q2)"
    by (simp add: str_lit_colon)
  from split_at_first_colon
    [OF SUBSCRIPTION_RE_plain(3) [OF assms(1)] SUBSCRIPTION_RE_plain(3) [OF assms(2)] e]
  have s: "s1 = s2" and r: "o1 @ 58 # ?p1 @ 58 # ?q1 = o2 @ 58 # ?p2 @ 58 # ?q2"
    by simp_all
  from r have "(o1 @ 58 # ?p1) @ 58 # ?q1 = (o2 @ 58 # ?p2) @ 58 # ?q2" by simp
  from split_at_last_colon [OF b64encode_plain(2) b64encode_plain(2) this]
  have q: "?q1 = ?q2" and r2: "o1 @ 58 # ?p1 = o2 @ 58 # ?p2" by simp_all
  from split_at_last_colon [OF b64encode_plain(2) b64encode_plain(2) r2]
  have "o1 = o2" "?p1 = ?p2" by simp_all
  with s q show ?thesis by simp
qed

text \<open>
  Claim C3. The identifier is injective in the quadruple: when two notifications are
  constructed and their quadruples of subscription, collection name, object identifier and
  message identifier differ in any component, their identifiers differ.
\<close>

theorem notification_id_injective:
  assumes "Notification_init tree (VStr o1) (VNode nd1) (VStr s1) (VMessage m1) = Inr n1"
    and "Notification_init tree (VStr o2) (VNode nd2) (VStr s2) (VMessage m2) = Inr n2"
    and "(s1, o1, node_id nd1, message_id m1) \<noteq> (s2, o2, node_id nd2, message_id m2)"
  shows "notification_id n1 \<noteq> notification_id n2"
proof
  assume eq: "notification_id n1 = notification_id n2"
  from Notification_init_Inr [OF assms(1)] obtain a1 b1 where
    f1: "subscription n1 = s1" "obj_list_name n1 = o1" "obj n1 = nd1" "message n1 = m1"
      "SUBSCRIPTION_RE_fullmatch s1"
      "str_encode (node_id nd1) = Inr a1" "str_encode (message_id m1) = Inr b1"
    and i1: "notification_id n1 = s1 @ str_lit '':'' @ o1 @ str_lit '':''
               @ b64encode a1 (str_lit ''+-'') @ str_lit '':'' @ b64encode b1 (str_lit ''+-'')"
    by auto
  from Notification_init_Inr [OF assms(2)] obtain a2 b2 where
    f2: "subscription n2 = s2" "obj_list_name n2 = o2" "obj n2 = nd2" "message n2 = m2"
      "SUBSCRIPTION_RE_fullmatch s2"
      "str_encode (node_id nd2) = Inr a2" "str_encode (message_id m2) = Inr b2"
    and i2: "notification_id n2 = s2 @ str_lit '':'' @ o2 @ str_lit '':''
               @ b64encode a2 (str_lit ''+-'') @ str_lit '':'' @ b64encode b2 (str_lit ''+-'')"
    by auto
  from composite_id_inj [OF f1(5) f2(5) eq [unfolded i1 i2]]
  have c: "s1 = s2" "o1 = o2" "b64encode a1 (str_lit ''+-'') = b64encode a2 (str_lit ''+-'')"
    "b64encode b1 (str_lit ''+-'') = b64encode b2 (str_lit ''+-'')"
    by simp_all
  have "node_id nd1 = node_id nd2" by (rule to_id_part_inj [OF f1(6) f2(6) c(3)])
  moreover have "message_id m1 = message_id m2" by (rule to_id_part_inj [OF f1(7) f2(7) c(4)])
  ultimately show False using assms(3) c(1,2) by simp
qed

text \<open>
  Claim C4. The identifier is a function of the quadruple alone: when a notification is
  constructed, the construction with any other object and any other message that have the
  same object identifier and the same message identifier (and the same subscription and
  collection name) succeeds as well and yields the same identifier, whatever the summary,
  description, recipients and the object's other content are.
\<close>

theorem notification_id_deterministic:
  assumes "Notification_init tree (VStr ol) (VNode nd1) (VStr s) (VMessage m1) = Inr n1"
    and "node_id nd2 = node_id nd1" and "message_id m2 = message_id m1"
  shows "\<exists>n2. Notification_init tree (VStr ol) (VNode nd2) (VStr s) (VMessage m2) = Inr n2
           \<and> notification_id n2 = notification_id n1"
proof -
  from Notification_init_Inr [OF assms(1)] obtain nb mb where
    f: "obj_list_name n1 = ol" "subscription n1 = s" "obj n1 = nd1" "message n1 = m1"
      "ol \<noteq> []" "tree ol \<noteq> None" "SUBSCRIPTION_RE_fullmatch s" "length s \<le> 64"
      "str_encode (node_id nd1) = Inr nb" "str_encode (message_id m1) = Inr mb"
    and i: "notification_id n1 = s @ str_lit '':'' @ ol @ str_lit '':''
               @ b64encode nb (str_lit ''+-'') @ str_lit '':'' @ b64encode mb (str_lit ''+-'')"
    and v: "is_valid_firestore_id (VStr (notification_id n1)) = Inr True"
    by auto
  have e: "str_encode (node_id nd2) = Inr nb" "str_encode (message_id m2) = Inr mb"
    using f(9,10) assms(2,3) by simp_all
  from Notification_init_ok [where tree = tree and ol = ol, OF f(6) f(5) f(7) f(8) e v [unfolded i]]
  show ?thesis by (simp add: i)
qed

subsection \<open>A worked example\<close>

lemma Notification_init_bounded:
  assumes "tree ol \<noteq> None" and "ol \<noteq> []"
    and "str_encode ol = Inr ob" and "47 \<notin> set ol"
    and "SUBSCRIPTION_RE_fullmatch s" and "length s \<le> 64"
    and "str_encode (node_id nd) = Inr nb" and "str_encode (message_id m) = Inr mb"
    and "length s + length ob + 4 * ((length nb + 2) div 3)
              + 4 * ((length mb + 2) div 3) + 3 \<le> 1500"
  shows "Notification_init tree (VStr ol) (VNode nd) (VStr s) (VMessage m) =
         Inr \<lparr>obj_list_name = ol, obj = nd, subscription = s, message = m,
              notification_id =
                s @ str_lit '':'' @ ol @ str_lit '':'' @ b64encode nb (str_lit ''+-'')
                @ str_lit '':'' @ b64encode mb (str_lit ''+-'')\<rparr>"
  by (rule Notification_init_ok [where tree = tree and ol = ol, OF assms(1) assms(2) assms(5)
        assms(6) assms(7) assms(8) composite_id_valid [OF assms(5) assms(3) assms(4) assms(9)]])

lemma example_notification:
  "SUBSCRIPTION_RE_fullmatch s \<Longrightarrow> length s \<le> 64 \<Longrightarrow>
   Notification_init [str_lit ''builds'' \<mapsto> [str_lit ''tests'']]
     (VStr (str_lit ''builds''))
     (VNode \<lparr>node_id = str_lit ''build:42'', summarize = sm, describe = ds\<rparr>)
     (VStr s)
     (VMessage \<lparr>recipients = rs, summary = su, description = de,
                 message_id = str_lit ''daily''\<rparr>) =
   Inr \<lparr>obj_list_name = str_lit ''builds'',
        obj = \<lparr>node_id = str_lit ''build:42'', summarize = sm, describe = ds\<rparr>,
        subscription = s,
        message = \<lparr>recipients = rs, summary = su, description = de,
                    message_id = str_lit ''daily''\<rparr>,
        notification_id = s @ str_lit '':builds:YnVpbGQ6NDI=:ZGFpbHk=''\<rparr>"
proof -
  assume s: "SUBSCRIPTION_RE_fullmatch s" "length s \<le> 64"
  have a: "str_encode (str_lit ''build:42'') = Inr (str_lit ''build:42'')"
    "str_encode (str_lit ''daily'') = Inr (str_lit ''daily'')"
    "str_encode (str_lit ''builds'') = Inr (str_lit ''builds'')"
    by (rule str_encode_ascii, simp add: str_lit_def)+
  have p: "b64encode (str_lit ''build:42'') (str_lit ''+-'') = str_lit ''YnVpbGQ6NDI=''"
    "b64encode (str_lit ''daily'') (str_lit ''+-'') = str_lit ''ZGFpbHk=''"
    using example_parts by (simp_all add: to_id_part_eq [OF a(1)] to_id_part_eq [OF a(2)])
  have c: "s @ str_lit '':'' @ str_lit ''builds'' @ str_lit '':'' @ str_lit ''YnVpbGQ6NDI=''
             @ str_lit '':'' @ str_lit ''ZGFpbHk='' = s @ str_lit '':builds:YnVpbGQ6NDI=:ZGFpbHk=''"
    by (simp add: str_lit_def)
  have l: "length s + length (str_lit ''builds'') + 4 * ((length (str_lit ''build:42'') + 2) div 3)
              + 4 * ((length (str_lit ''daily'') + 2) div 3) + 3 \<le> 1500"
    using s(2) by (simp add: str_lit_def)
  have t: "[str_lit ''builds'' \<mapsto> [str_lit ''tests'']] (str_lit ''builds'') \<noteq> None"
    "str_lit ''builds'' \<noteq> []" "47 \<notin> set (str_lit ''builds'')"
    by (simp_all add: str_lit_def)
  show ?thesis
    using Notification_init_bounded [where tree = "[str_lit ''builds'' \<mapsto> [str_lit ''tests'']]"
        and ol = "str_lit ''builds''" and ob = "str_lit ''builds''" and s = s
        and nd = "\<lparr>node_id = str_lit ''build:42'', summarize = sm, describe = ds\<rparr>"
        and nb = "str_lit ''build:42''"
        and m = "\<lparr>recipients = rs, summary = su, description = de,
                 message_id = str_lit ''daily''\<rparr>"
        and mb = "str_lit ''daily''", OF t(1) t(2) a(3) t(3) s(1) s(2)]
      a l
    by (simp add: p c)
qed

lemma example_subscriptions:
  "SUBSCRIPTION_RE_fullmatch (str_lit '''')" "length (str_lit '''') \<le> 64"
  "SUBSCRIPTION_RE_fullmatch (str_lit ''build_fail'')" "length (str_lit ''build_fail'') \<le> 64"
  "SUBSCRIPTION_RE_fullmatch (str_lit ''good_1'')" "length (str_lit ''good_1'') \<le> 64"
  "\<not> SUBSCRIPTION_RE_fullmatch (str_lit ''_bad'')"
  by (simp_all add: SUBSCRIPTION_RE_fullmatch_def is_alnum_def str_lit_def)

theorem notification_id_injective_witness:
  "Notification_init [str_lit ''builds'' \<mapsto> [str_lit ''tests'']]
     (VStr (str_lit ''builds''))
     (VNode \<lparr>node_id = str_lit ''build:42'', summarize = [], describe = []\<rparr>)
     (VStr (str_lit ''build_fail''))
     (VMessage \<lparr>recipients = [], summary = [], description = [],
                 message_id = str_lit ''daily''\<rparr>) =
   Inr \<lparr>obj_list_name = str_lit ''builds'',
        obj = \<lparr>node_id = str_lit ''build:42'', summarize = [], describe = []\<rparr>,
        subscription = str_lit ''build_fail'',
        message = \<lparr>recipients = [], summary = [], description = [],
                    message_id = str_lit ''daily''\<rparr>,
        notification_id = str_lit ''build_fail'' @ str_lit '':builds:YnVpbGQ6NDI=:ZGFpbHk=''\<rparr>
   \<and> Notification_init [str_lit ''builds'' \<mapsto> [str_lit ''tests'']]
     (VStr (str_lit ''builds''))
     (VNode \<lparr>node_id = str_lit ''build:42'', summarize = [], describe = []\<rparr>)
     (VStr (str_lit ''good_1''))
     (VMessage \<lparr>recipients = [], summary = [], description = [],
                 message_id = str_lit ''daily''\<rparr>) =
   Inr \<lparr>obj_list_name = str_lit ''builds'',
        obj = \<lparr>node_id = str_lit ''build:42'', summarize = [], describe = []\<rparr>,
        subscription = str_lit ''good_1'',
        message = \<lparr>recipients = [], summary = [], description = [],
                    message_id = str_lit ''daily''\<rparr>,
        notification_id = str_lit ''good_1'' @ str_lit '':builds:YnVpbGQ6NDI=:ZGFpbHk=''\<rparr>
   \<and> (str_lit ''build_fail'', str_lit ''builds'', str_lit ''build:42'', str_lit ''daily'')
       \<noteq> (str_lit ''good_1'', str_lit ''builds'', str_lit ''build:42'', str_lit ''daily'')
   \<and> str_lit ''build_fail'' @ str_lit '':builds:YnVpbGQ6NDI=:ZGFpbHk=''
       \<noteq> str_lit ''good_1'' @ str_lit '':builds:YnVpbGQ6NDI=:ZGFpbHk=''"
proof -
  note a = example_notification [OF example_subscriptions(3) example_subscriptions(4),
      of "[]" "[]" "[]" "[]" "[]"]
  note b = example_notification [OF example_subscriptions(5) example_subscriptions(6),
      of "[]" "[]" "[]" "[]" "[]"]
  have c: "(str_lit ''build_fail'', str_lit ''builds'',
            node_id \<lparr>node_id = str_lit ''build:42'', summarize = [], describe = []\<rparr>,
            message_id \<lparr>recipients = [], summary = [], description = [],
                 message_id = str_lit ''daily''\<rparr>)
       \<noteq> (str_lit ''good_1'', str_lit ''builds'',
            node_id \<lparr>node_id = str_lit ''build:42'', summarize = [], describe = []\<rparr>,
            message_id \<lparr>recipients = [], summary = [], description = [],
                 message_id = str_lit ''daily''\<rparr>)"
    by (simp add: str_lit_def)
  from notification_id_injective [OF a b c] a b c show ?thesis by simp
qed

theorem notification_id_deterministic_witness:
  "Notification_init [str_lit ''builds'' \<mapsto> [str_lit ''tests'']]
     (VStr (str_lit ''builds''))
     (VNode \<lparr>node_id = str_lit ''build:42'', summarize = [], describe = []\<rparr>)
     (VStr (str_lit ''build_fail''))
     (VMessage \<lparr>recipients = [], summary = [], description = [],
                 message_id = str_lit ''daily''\<rparr>) =
   Inr \<lparr>obj_list_name = str_lit ''builds'',
        obj = \<lparr>node_id = str_lit ''build:42'', summarize = [], describe = []\<rparr>,
        subscription = str_lit ''build_fail'',
        message = \<lparr>recipients = [], summary = [], description = [],
                    message_id = str_lit ''daily''\<rparr>,
        notification_id = str_lit ''build_fail'' @ str_lit '':builds:YnVpbGQ6NDI=:ZGFpbHk=''\<rparr>
   \<and> node_id \<lparr>node_id = str_lit ''build:42'', summarize = str_lit ''build 42'',
               describe = str_lit ''Build 42 failed.''\<rparr>
       = node_id \<lparr>node_id = str_lit ''build:42'', summarize = [], describe = []\<rparr>
   \<and> message_id \<lparr>recipients = [str_lit ''a@b.org''], summary = str_lit ''Build failed: '',
                  description = str_lit ''Details: '', message_id = str_lit ''daily''\<rparr>
       = message_id \<lparr>recipients = [], summary = [], description = [],
                 message_id = str_lit ''daily''\<rparr>
   \<and> (\<exists>n2. Notification_init [str_lit ''builds'' \<mapsto> [str_lit ''tests'']]
          (VStr (str_lit ''builds''))
          (VNode \<lparr>node_id = str_lit ''build:42'', summarize = str_lit ''build 42'',
                   describe = str_lit ''Build 42 failed.''\<rparr>)
          (VStr (str_lit ''build_fail''))
          (VMessage \<lparr>recipients = [str_lit ''a@b.org''], summary = str_lit ''Build failed: '',
                  description = str_lit ''Details: '', message_id = str_lit ''daily''\<rparr>)
          = Inr n2
        \<and> notification_id n2 = str_lit ''build_fail'' @ str_lit '':builds:YnVpbGQ6NDI=:ZGFpbHk='')"
proof -
  note a = example_notification [OF example_subscriptions(3) example_subscriptions(4),
      of "[]" "[]" "[]" "[]" "[]"]
  have b: "node_id \<lparr>node_id = str_lit ''build:42'', summarize = str_lit ''build 42'',
               describe = str_lit ''Build 42 failed.''\<rparr>
       = node_id \<lparr>node_id = str_lit ''build:42'', summarize = [], describe = []\<rparr>"
    and c: "message_id \<lparr>recipients = [str_lit ''a@b.org''], summary = str_lit ''Build failed: '',
                  description = str_lit ''Details: '', message_id = str_lit ''daily''\<rparr>
       = message_id \<lparr>recipients = [], summary = [], description = [],
                 message_id = str_lit ''daily''\<rparr>"
    by simp_all
  from notification_id_deterministic [OF a b c] a b c show ?thesis by simp
qed

subsection \<open>The subscription name\<close>

lemma subscription_rejected:
  assumes "tree ol \<noteq> None" and "ol \<noteq> []"
    and "\<not> SUBSCRIPTION_RE_fullmatch s \<or> (\<exists>sb. str_encode s = Inr sb \<and> 64 < length sb)"
  shows "Notification_init tree (VStr ol) (VNode nd) (VStr s) mv = Inl AssertionError"
  using assms
  by (auto simp: Notification_init_def assert_that_def bind_exc_def encode_def the_simps
      isinstance_simps)

text \<open>
  Claim C7, as stated, fails. With a valid message, a known collection name and an object
  whose identifier has 1200 bytes, every assertion on the arguments passes for the
  subscriptions \<open>good_1\<close> and the empty string, but the composite identifier has more
  than 1500 bytes and the final assertion refuses the construction.
\<close>

theorem subscription_accepted_counterexample:
  "NotificationMessage_init (VList []) (VStr (str_lit '''')) (VStr (str_lit ''''))
       (VStr (str_lit '''')) =
     Inr \<lparr>recipients = [], summary = [], description = [], message_id = []\<rparr>
   \<and> [str_lit ''builds'' \<mapsto> [str_lit ''tests'']] (str_lit ''builds'') \<noteq> None
   \<and> str_lit ''builds'' \<noteq> []
   \<and> Notification_init [str_lit ''builds'' \<mapsto> [str_lit ''tests'']] (VStr (str_lit ''builds''))
       (VNode \<lparr>node_id = replicate 1200 97, summarize = [], describe = []\<rparr>)
       (VStr (str_lit ''good_1''))
       (VMessage \<lparr>recipients = [], summary = [], description = [], message_id = []\<rparr>)
     = Inl AssertionError
   \<and> Notification_init [str_lit ''builds'' \<mapsto> [str_lit ''tests'']] (VStr (str_lit ''builds''))
       (VNode \<lparr>node_id = replicate 1200 97, summarize = [], describe = []\<rparr>)
       (VStr (str_lit ''''))
       (VMessage \<lparr>recipients = [], summary = [], description = [], message_id = []\<rparr>)
     = Inl AssertionError"
proof -
  have m: "NotificationMessage_init (VList []) (VStr (str_lit '''')) (VStr (str_lit ''''))
       (VStr (str_lit '''')) =
     Inr \<lparr>recipients = [], summary = [], description = [], message_id = []\<rparr>"
    using NotificationMessage_init_ok [of "[]" "[]" "[]" "[]" "[]" "[]"]
    by (simp add: str_lit_def NOTIFICATION_MESSAGE_SUMMARY_RE_fullmatch_def)
  have t: "[str_lit ''builds'' \<mapsto> [str_lit ''tests'']] (str_lit ''builds'') \<noteq> None"
    "str_lit ''builds'' \<noteq> []"
    by (simp_all add: str_lit_def)
  have e: "str_encode (replicate 1200 97) = Inr (replicate 1200 97)"
    by (rule str_encode_ascii) (simp add: list_all_iff)
  have o: "str_encode (str_lit ''builds'') = Inr (str_lit ''builds'')"
    by (rule str_encode_ascii) (simp add: str_lit_def)
  have long: "Notification_init [str_lit ''builds'' \<mapsto> [str_lit ''tests'']]
       (VStr (str_lit ''builds''))
       (VNode \<lparr>node_id = replicate 1200 97, summarize = [], describe = []\<rparr>)
       (VStr s)
       (VMessage \<lparr>recipients = [], summary = [], description = [], message_id = []\<rparr>)
     = Inl AssertionError"
    if "SUBSCRIPTION_RE_fullmatch s" "length s \<le> 64" for s
  proof -
    have n: "str_encode (node_id \<lparr>node_id = replicate 1200 97, summarize = [], describe = []\<rparr>)
               = Inr (replicate 1200 97)"
      using e by simp
    have i: "str_encode (message_id \<lparr>recipients = [], summary = [], description = [],
               message_id = []\<rparr>) = Inr []"
      by simp
    have l: "1500 < length s + length (str_lit ''builds'')
               + 4 * ((length (replicate 1200 (97::nat)) + 2) div 3)
               + 4 * ((length ([]::nat list) + 2) div 3) + 3"
      by simp
    show ?thesis
      by (rule Notification_init_too_long [where tree = "[str_lit ''builds'' \<mapsto> [str_lit ''tests'']]"
            and ol = "str_lit ''builds''", OF t(1) t(2) that(1) that(2) n i o l])
  qed
  from long [OF example_subscriptions(5) example_subscriptions(6)]
    long [OF example_subscriptions(1) example_subscriptions(2)] m t
  show ?thesis by simp
qed

text \<open>
  Claim C7, amended. With a valid message and a known, non-empty collection name, the
  subscription \<open>_bad\<close> with its leading underscore is rejected, and so is every
  subscription whose UTF-8 encoding has 65 bytes. The empty subscription and \<open>good_1\<close>
  are accepted, and the construction succeeds, when in addition the collection name and the
  object's identifier have UTF-8 encodings, the collection name holds no \<open>/\<close>, and the
  bytes of the collection name plus the length of the encoded object identifier are at most
  1089, the bound under which the composite identifier is a valid key.
\<close>

theorem subscription_rejection_boundary:
  assumes "NotificationMessage_init rv sv dv iv = Inr m"
    and "tree ol \<noteq> None" and "ol \<noteq> []"
  shows "Notification_init tree (VStr ol) (VNode nd) (VStr (str_lit ''_bad'')) (VMessage m)
             = Inl AssertionError
       \<and> (\<forall>s sb. str_encode s = Inr sb \<and> length sb = 65 \<longrightarrow>
             Notification_init tree (VStr ol) (VNode nd) (VStr s) (VMessage m)
               = Inl AssertionError)
       \<and> (str_encode ol = Inr ob \<and> 47 \<notin> set ol \<and> str_encode (node_id nd) = Inr nb
            \<and> length ob + 4 * ((length nb + 2) div 3) \<le> 1089 \<longrightarrow>
          (\<exists>n. Notification_init tree (VStr ol) (VNode nd) (VStr (str_lit '''')) (VMessage m)
                 = Inr n \<and> subscription n = str_lit '''')
          \<and> (\<exists>n. Notification_init tree (VStr ol) (VNode nd) (VStr (str_lit ''good_1''))
                 (VMessage m) = Inr n \<and> subscription n = str_lit ''good_1''))"
proof -
  from NotificationMessage_init_Inr [OF assms(1)] obtain mb where
    mb: "str_encode (message_id m) = Inr mb" "length mb \<le> 256"
    by blast
  have q: "(length mb + 2) div 3 \<le> 86" using mb(2) by simp
  have ok: "\<exists>n. Notification_init tree (VStr ol) (VNode nd) (VStr s) (VMessage m) = Inr n
              \<and> subscription n = s"
    if s: "SUBSCRIPTION_RE_fullmatch s" "length s \<le> 64"
      and b: "str_encode ol = Inr ob \<and> 47 \<notin> set ol \<and> str_encode (node_id nd) = Inr nb
            \<and> length ob + 4 * ((length nb + 2) div 3) \<le> 1089" for s
  proof -
    from q s(2) b have "length s + length ob + 4 * ((length nb + 2) div 3)
              + 4 * ((length mb + 2) div 3) + 3 \<le> 1500"
      by simp
    with b have "Notification_init tree (VStr ol) (VNode nd) (VStr s) (VMessage m) =
         Inr \<lparr>obj_list_name = ol, obj = nd, subscription = s, message = m,
              notification_id =
                s @ str_lit '':'' @ ol @ str_lit '':'' @ b64encode nb (str_lit ''+-'')
                @ str_lit '':'' @ b64encode mb (str_lit ''+-'')\<rparr>"
      by (intro Notification_init_bounded [where tree = tree and ol = ol and ob = ob]
          assms(2) assms(3) s mb(1)) simp_all
    then show ?thesis by simp
  qed
  have bad: "Notification_init tree (VStr ol) (VNode nd) (VStr (str_lit ''_bad'')) (VMessage m)
             = Inl AssertionError"
    by (rule subscription_rejected [where tree = tree and ol = ol, OF assms(2) assms(3)])
       (simp add: example_subscriptions(7))
  have long: "Notification_init tree (VStr ol) (VNode nd) (VStr s) (VMessage m)
               = Inl AssertionError"
    if "str_encode s = Inr sb \<and> length sb = 65" for s sb
    by (rule subscription_rejected [where tree = tree and ol = ol, OF assms(2) assms(3)])
       (use that in auto)
  from ok [OF example_subscriptions(1) example_subscriptions(2)]
    ok [OF example_subscriptions(5) example_subscriptions(6)] bad long
  show ?thesis by blast
qed

theorem subscription_rejection_boundary_witness:
  "NotificationMessage_init (VList [VStr (str_lit ''a@b.org'')]) (VStr (str_lit ''Build failed: ''))
       (VStr (str_lit ''Details: '')) (VStr (str_lit ''daily'')) =
     Inr \<lparr>recipients = [str_lit ''a@b.org''], summary = str_lit ''Build failed: '',
          description = str_lit ''Details: '', message_id = str_lit ''daily''\<rparr>
   \<and> [str_lit ''builds'' \<mapsto> [str_lit ''tests'']] (str_lit ''builds'') \<noteq> None
   \<and> str_lit ''builds'' \<noteq> []
   \<and> str_encode (str_lit ''builds'') = Inr (str_lit ''builds'')
   \<and> 47 \<notin> set (str_lit ''builds'')
   \<and> str_encode (node_id \<lparr>node_id = str_lit ''build:42'', summarize = [], describe = []\<rparr>)
       = Inr (str_lit ''build:42'')
   \<and> length (str_lit ''builds'') + 4 * ((length (str_lit ''build:42'') + 2) div 3) \<le> 1089
   \<and> str_encode (replicate 65 97) = Inr (replicate 65 97)
   \<and> length (replicate 65 (97::nat)) = 65
   \<and> (\<exists>n. Notification_init [str_lit ''builds'' \<mapsto> [str_lit ''tests'']]
          (VStr (str_lit ''builds''))
          (VNode \<lparr>node_id = str_lit ''build:42'', summarize = [], describe = []\<rparr>)
          (VStr (str_lit ''''))
          (VMessage \<lparr>recipients = [str_lit ''a@b.org''], summary = str_lit ''Build failed: '',
             description = str_lit ''Details: '', message_id = str_lit ''daily''\<rparr>) = Inr n
        \<and> subscription n = str_lit '''')
   \<and> Notification_init [str_lit ''builds'' \<mapsto> [str_lit ''tests'']]
          (VStr (str_lit ''builds''))
          (VNode \<lparr>node_id = str_lit ''build:42'', summarize = [], describe = []\<rparr>)
          (VStr (str_lit ''_bad''))
          (VMessage \<lparr>recipients = [str_lit ''a@b.org''], summary = str_lit ''Build failed: '',
             description = str_lit ''Details: '', message_id = str_lit ''daily''\<rparr>)
        = Inl AssertionError
   \<and> (\<exists>n. Notification_init [str_lit ''builds'' \<mapsto> [str_lit ''tests'']]
          (VStr (str_lit ''builds''))
          (VNode \<lparr>node_id = str_lit ''build:42'', summarize = [], describe = []\<rparr>)
          (VStr (str_lit ''good_1''))
          (VMessage \<lparr>recipients = [str_lit ''a@b.org''], summary = str_lit ''Build failed: '',
             description = str_lit ''Details: '', message_id = str_lit ''daily''\<rparr>) = Inr n
        \<and> subscription n = str_lit ''good_1'')
   \<and> Notification_init [str_lit ''builds'' \<mapsto> [str_lit ''tests'']]
          (VStr (str_lit ''builds''))
          (VNode \<lparr>node_id = str_lit ''build:42'', summarize = [], describe = []\<rparr>)
          (VStr (replicate 65 97))
          (VMessage \<lparr>recipients = [str_lit ''a@b.org''], summary = str_lit ''Build failed: '',
             description = str_lit ''Details: '', message_id = str_lit ''daily''\<rparr>)
        = Inl AssertionError"
proof -
  have h1: "[str_lit ''builds'' \<mapsto> [str_lit ''tests'']] (str_lit ''builds'') \<noteq> None"
    and h2: "str_lit ''builds'' \<noteq> []"
    and h4: "47 \<notin> set (str_lit ''builds'')"
    and h6: "length (str_lit ''builds'') + 4 * ((length (str_lit ''build:42'') + 2) div 3) \<le> 1089"
    and h8: "length (replicate 65 (97::nat)) = 65"
    by (simp_all add: str_lit_def)
  have h3: "str_encode (str_lit ''builds'') = Inr (str_lit ''builds'')"
    by (rule str_encode_ascii) (simp add: str_lit_def)
  have "str_encode (str_lit ''build:42'') = Inr (str_lit ''build:42'')"
    by (rule str_encode_ascii) (simp add: str_lit_def)
  then have h5: "str_encode (node_id \<lparr>node_id = str_lit ''build:42'', summarize = [],
                   describe = []\<rparr>) = Inr (str_lit ''build:42'')"
    by simp
  have h7: "str_encode (replicate 65 97) = Inr (replicate 65 97)"
    by (rule str_encode_ascii) (simp add: list_all_iff)
  note t = subscription_rejection_boundary [where tree = "[str_lit ''builds'' \<mapsto> [str_lit ''tests'']]"
      and ol = "str_lit ''builds''" and ob = "str_lit ''builds''"
      and nd = "\<lparr>node_id = str_lit ''build:42'', summarize = [], describe = []\<rparr>"
      and nb = "str_lit ''build:42''", OF example_message h1 h2]
  from t h7 h8 have long: "Notification_init [str_lit ''builds'' \<mapsto> [str_lit ''tests'']]
          (VStr (str_lit ''builds''))
          (VNode \<lparr>node_id = str_lit ''build:42'', summarize = [], describe = []\<rparr>)
          (VStr (replicate 65 97))
          (VMessage \<lparr>recipients = [str_lit ''a@b.org''], summary = str_lit ''Build failed: '',
             description = str_lit ''Details: '', message_id = str_lit ''daily''\<rparr>)
        = Inl AssertionError"
    by blast
  from t h3 h4 h5 h6 have ok: "(\<exists>n. Notification_init [str_lit ''builds'' \<mapsto> [str_lit ''tests'']]
          (VStr (str_lit ''builds''))
          (VNode \<lparr>node_id = str_lit ''build:42'', summarize = [], describe = []\<rparr>)
          (VStr (str_lit ''''))
          (VMessage \<lparr>recipients = [str_lit ''a@b.org''], summary = str_lit ''Build failed: '',
             description = str_lit ''Details: '', message_id = str_lit ''daily''\<rparr>) = Inr n
        \<and> subscription n = str_lit '''')
      \<and> (\<exists>n. Notification_init [str_lit ''builds'' \<mapsto> [str_lit ''tests'']]
          (VStr (str_lit ''builds''))
          (VNode \<lparr>node_id = str_lit ''build:42'', summarize = [], describe = []\<rparr>)
          (VStr (str_lit ''good_1''))
          (VMessage \<lparr>recipients = [str_lit ''a@b.org''], summary = str_lit ''Build failed: '',
             description = str_lit ''Details: '', message_id = str_lit ''daily''\<rparr>) = Inr n
        \<and> subscription n = str_lit ''good_1'')"
    by blast
  from t have bad: "Notification_init [str_lit ''builds'' \<mapsto> [str_lit ''tests'']]
          (VStr (str_lit ''builds''))
          (VNode \<lparr>node_id = str_lit ''build:42'', summarize = [], describe = []\<rparr>)
          (VStr (str_lit ''_bad''))
          (VMessage \<lparr>recipients = [str_lit ''a@b.org''], summary = str_lit ''Build failed: '',
             description = str_lit ''Details: '', message_id = str_lit ''daily''\<rparr>)
        = Inl AssertionError"
    by blast
  from ok bad long example_message h1 h2 h3 h4 h5 h6 h7 h8 show ?thesis by blast
qed

subsection \<open>Rendering\<close>












end
